theory Spec2Isabelle
  imports Complex_Main "HOL-Library.Sublist" "HOL-Library.Product_Lexorder"
begin

section \<open>Python string primitives used by the server\<close>

text \<open>
  Python \<open>str\<close> values are modelled as \<open>string\<close>; every name the server handles is
  an ASCII class name or a text it formatted itself. Exceptions are values of
  \<open>py_error\<close>; a function that can raise returns \<open>py_error + 'a\<close>.
\<close>

datatype py_error = IndexError | ValueError | OverflowError

text \<open>\<open>s.endswith(suf)\<close>.\<close>

definition endswith :: "string \<Rightarrow> string \<Rightarrow> bool" where
  "endswith s suf = (length suf \<le> length s \<and> drop (length s - length suf) s = suf)"

text \<open>\<open>c in "aeiou"\<close> for a one-character string \<open>c\<close>.\<close>

definition in_aeiou :: "char \<Rightarrow> bool" where
  "in_aeiou c = (c \<in> set ''aeiou'')"

text \<open>\<open>c.lower()\<close> on one character: the ASCII capitals are shifted, all else is kept.\<close>

definition lower_char :: "char \<Rightarrow> char" where
  "lower_char c =
     (case map_of (zip ''ABCDEFGHIJKLMNOPQRSTUVWXYZ'' ''abcdefghijklmnopqrstuvwxyz'') c of
        Some l \<Rightarrow> l
      | None \<Rightarrow> c)"

definition lower :: "string \<Rightarrow> string" where
  "lower s = map lower_char s"

text \<open>\<open>str(n)\<close> and \<open>f"{n}"\<close> for a Python integer.\<close>

fun str_nat :: "nat \<Rightarrow> string" where
  "str_nat n =
     (if n < 10 then [''0123456789'' ! n]
      else str_nat (n div 10) @ [''0123456789'' ! (n mod 10)])"

declare str_nat.simps [simp del]

definition str_int :: "int \<Rightarrow> string" where
  "str_int i = (if i < 0 then CHR ''-'' # str_nat (nat (- i)) else str_nat (nat i))"

section \<open>The sentence helpers\<close>

text \<open>\<open>natural_join(items_list)\<close>.\<close>

fun join_with :: "string \<Rightarrow> string list \<Rightarrow> string" where
  "join_with sep [] = []"
| "join_with sep [x] = x"
| "join_with sep (x # y # ys) = x @ sep @ join_with sep (y # ys)"

definition natural_join :: "string list \<Rightarrow> string" where
  "natural_join items_list =
     (if items_list = [] then ''''
      else if length items_list = 1 then items_list ! 0
      else if length items_list = 2 then items_list ! 0 @ '' and '' @ items_list ! 1
      else join_with '', '' (butlast items_list) @ '', and '' @ last items_list)"

text \<open>
  \<open>format_object_with_count(name, count)\<close>. The two index reads \<open>name[-2]\<close> and
  \<open>name[0]\<close> raise \<open>IndexError\<close> when the name is too short; \<open>and\<close> is
  short-circuit, so \<open>name[-2]\<close> is read only when the name ends in \<open>y\<close>.
\<close>

definition plural_name :: "string \<Rightarrow> py_error + string" where
  "plural_name name =
     (if endswith name ''s'' \<or> endswith name ''sh'' \<or> endswith name ''ch''
         \<or> endswith name ''x'' \<or> endswith name ''z''
      then Inr (name @ ''es'')
      else if endswith name ''y''
      then (if length name < 2 then Inl IndexError
            else if \<not> in_aeiou (name ! (length name - 2))
            then Inr (butlast name @ ''ies'')
            else Inr (name @ ''s''))
      else Inr (name @ ''s''))"

definition format_object_with_count :: "string \<Rightarrow> int \<Rightarrow> py_error + string" where
  "format_object_with_count name count =
     (case plural_name name of
        Inl e \<Rightarrow> Inl e
      | Inr plural \<Rightarrow>
          if count = 1 then
            (if name = [] then Inl IndexError
             else if in_aeiou (lower_char (name ! 0)) then Inr (''an '' @ name)
             else Inr (''a '' @ name))
          else if count = 2 then Inr (''two '' @ plural)
          else if count = 3 then Inr (''three '' @ plural)
          else Inr (str_int count @ '' '' @ plural))"

text \<open>\<open>sub in s\<close>: \<open>sub\<close> occurs in \<open>s\<close> as a contiguous piece.\<close>

fun py_in :: "string \<Rightarrow> string \<Rightarrow> bool" where
  "py_in sub [] = (sub = [])"
| "py_in sub (c # cs) = (prefix sub (c # cs) \<or> py_in sub cs)"

text \<open>
  \<open>s.split(sep, 1)\<close> cuts at the first occurrence of \<open>sep\<close>: \<open>Some (before, after)\<close>
  is the two-element list, \<open>None\<close> the one-element list \<open>[s]\<close> returned when \<open>sep\<close>
  does not occur. The server unpacks the result into two names, which raises
  \<open>ValueError\<close> on the one-element list.
\<close>

fun split_once :: "string \<Rightarrow> string \<Rightarrow> (string \<times> string) option" where
  "split_once sep [] = (if sep = [] then Some ([], []) else None)"
| "split_once sep (c # cs) =
     (if prefix sep (c # cs) then Some ([], drop (length sep) (c # cs))
      else (case split_once sep cs of
              None \<Rightarrow> None
            | Some (before, after) \<Rightarrow> Some (c # before, after)))"

text \<open>\<open>s.split(',')[0]\<close>: the text before the first comma.\<close>

definition before_comma :: "string \<Rightarrow> string" where
  "before_comma s = takeWhile (\<lambda>c. c \<noteq> CHR '','') s"

text \<open>\<open>s.rstrip(']')\<close>.\<close>

definition rstrip_bracket :: "string \<Rightarrow> string" where
  "rstrip_bracket s = rev (dropWhile (\<lambda>c. c = CHR '']'') (rev s))"

text \<open>\<open>s.strip()\<close>: the white space of Python among the code points below 256.\<close>

definition is_space :: "char \<Rightarrow> bool" where
  "is_space c = (c \<in> set [CHR 0x09, CHR 0x0A, CHR 0x0B, CHR 0x0C, CHR 0x0D, CHR 0x1C,
                           CHR 0x1D, CHR 0x1E, CHR 0x1F, CHR 0x20, CHR 0x85, CHR 0xA0])"

definition strip :: "string \<Rightarrow> string" where
  "strip s = rev (dropWhile is_space (rev (dropWhile is_space s)))"

text \<open>
  A Python or \<open>numpy\<close> float. A finite value is idealised as an exact rational, so
  rounding and overflow are outside the model. The three values that are not finite are
  kept, because the code treats them differently: every comparison with \<open>nan\<close> is
  false, and \<open>int(x)\<close> raises on each of the three.
\<close>

datatype pyfloat = Finite rat | PosInf | NegInf | NaN

text \<open>\<open>a < b\<close> and \<open>a <= b\<close> on floats.\<close>

fun float_less :: "pyfloat \<Rightarrow> pyfloat \<Rightarrow> bool" where
  "float_less (Finite a) (Finite b) = (a < b)"
| "float_less (Finite a) PosInf = True"
| "float_less NegInf (Finite b) = True"
| "float_less NegInf PosInf = True"
| "float_less a b = False"

fun float_le :: "pyfloat \<Rightarrow> pyfloat \<Rightarrow> bool" where
  "float_le NaN b = False"
| "float_le a NaN = False"
| "float_le a b = (a = b \<or> float_less a b)"

text \<open>
  \<open>float(s)\<close> on the texts the detection strings carry: optional white space around, an
  optional sign, and then digits with an optional fraction, or one of the words
  \<open>inf\<close>, \<open>infinity\<close>, \<open>nan\<close> in any case. Any other text is a \<open>ValueError\<close>. The
  further spellings Python accepts (exponents, underscores) are never written by the
  server's own \<open>:.2f\<close> formatter and are not modelled.
\<close>

definition is_digit :: "char \<Rightarrow> bool" where
  "is_digit c = (c \<in> set ''0123456789'')"

definition digit_val :: "char \<Rightarrow> nat" where
  "digit_val c =
     (case map_of (zip ''0123456789'' [0, 1, 2, 3, 4, 5, 6, 7, 8, 9]) c of
        Some d \<Rightarrow> d
      | None \<Rightarrow> 0)"

definition digits_val :: "string \<Rightarrow> nat" where
  "digits_val s = foldl (\<lambda>a c. 10 * a + digit_val c) 0 s"

definition py_float :: "string \<Rightarrow> py_error + pyfloat" where
  "py_float s =
     (let t = strip s;
          neg = (t \<noteq> [] \<and> hd t = CHR ''-'');
          u = (if t \<noteq> [] \<and> (hd t = CHR ''-'' \<or> hd t = CHR ''+'') then tl t else t);
          ip = takeWhile is_digit u;
          rest = dropWhile is_digit u
      in if lower u = ''inf'' \<or> lower u = ''infinity''
         then Inr (if neg then NegInf else PosInf)
         else if lower u = ''nan'' then Inr NaN
         else if rest \<noteq> [] \<and> (hd rest \<noteq> CHR ''.'' \<or> \<not> list_all is_digit (tl rest))
         then Inl ValueError
         else let fp = tl rest
              in if ip = [] \<and> fp = [] then Inl ValueError
                 else let v = of_nat (digits_val ip) + of_nat (digits_val fp) / 10 ^ length fp
                      in Inr (Finite (if neg then - v else v)))"

section \<open>Configuration constants\<close>

definition CONF_THRESHOLD :: rat where
  "CONF_THRESHOLD = 37 / 100"

definition NMS_THRESHOLD :: rat where
  "NMS_THRESHOLD = 35 / 100"

definition SPEECH_CONF_THRESHOLD :: rat where
  "SPEECH_CONF_THRESHOLD = 30 / 100"

definition TTS_ANNOUNCEMENT_COOLDOWN :: rat where
  "TTS_ANNOUNCEMENT_COOLDOWN = 5"

section \<open>The speech summary\<close>

text \<open>
  A \<open>Counter\<close> keeps its keys in insertion order, which is the order \<open>.items()\<close>
  lists them in: an association list, a new key appended at the end.
\<close>

type_synonym counter = "(string \<times> int) list"

fun counter_inc :: "string \<Rightarrow> counter \<Rightarrow> counter" where
  "counter_inc k [] = [(k, 1)]"
| "counter_inc k ((k', n) # kvs) =
     (if k = k' then (k', n + 1) # kvs else (k', n) # counter_inc k kvs)"

type_synonym semantic_set = "(string \<times> string) set"

text \<open>
  The loop state of the summary: the three counters of \<open>objects_by_direction\<close> and
  \<open>current_semantic_set\<close>.
\<close>

record speech_loop_state =
  by_left :: counter
  by_right :: counter
  by_front :: counter
  current_semantic_set :: semantic_set

text \<open>The three statements of the \<open>try\<close> block that can raise \<open>ValueError\<close>.\<close>

definition parse_item :: "string \<Rightarrow> py_error + (string \<times> string \<times> pyfloat)" where
  "parse_item item_str =
     (case split_once '' ('' item_str of
        None \<Rightarrow> Inl ValueError
      | Some (name_part, rest_of_item) \<Rightarrow>
          (case split_once '') ['' rest_of_item of
             None \<Rightarrow> Inl ValueError
           | Some (direction_part, score_part) \<Rightarrow>
               (case py_float (rstrip_bracket score_part) of
                  Inl e \<Rightarrow> Inl e
                | Inr score \<Rightarrow> Inr (name_part, direction_part, score))))"

text \<open>One pass of the loop body; an item that raises is logged and dropped.\<close>

definition speech_item :: "string \<Rightarrow> speech_loop_state \<Rightarrow> speech_loop_state" where
  "speech_item item_str st =
     (case parse_item item_str of
        Inl e \<Rightarrow> st
      | Inr (name_part, direction_part, score) \<Rightarrow>
          if float_less score (Finite SPEECH_CONF_THRESHOLD) then st
          else let primary_class_name = strip (before_comma name_part);
                   direction = lower (strip direction_part);
                   st1 = st\<lparr>current_semantic_set :=
                            insert (primary_class_name, direction) (current_semantic_set st)\<rparr>
               in if direction = ''left''
                  then st1\<lparr>by_left := counter_inc primary_class_name (by_left st1)\<rparr>
                  else if direction = ''right''
                  then st1\<lparr>by_right := counter_inc primary_class_name (by_right st1)\<rparr>
                  else if direction = ''front''
                  then st1\<lparr>by_front := counter_inc primary_class_name (by_front st1)\<rparr>
                  else st1)"

fun speech_loop :: "string list \<Rightarrow> speech_loop_state \<Rightarrow> speech_loop_state" where
  "speech_loop [] st = st"
| "speech_loop (item_str # items) st = speech_loop items (speech_item item_str st)"

text \<open>
  \<open>[format_object_with_count(n, c) for n, c in counter.items()]\<close>: the first item that
  raises ends the comprehension, and nothing catches it.
\<close>

fun format_items :: "counter \<Rightarrow> py_error + string list" where
  "format_items [] = Inr []"
| "format_items ((n, c) # kvs) =
     (case format_object_with_count n c of
        Inl e \<Rightarrow> Inl e
      | Inr s \<Rightarrow> (case format_items kvs of Inl e \<Rightarrow> Inl e | Inr ss \<Rightarrow> Inr (s # ss)))"

definition summary_clauses :: "speech_loop_state \<Rightarrow> py_error + string list" where
  "summary_clauses st =
     (case format_items (by_front st) of
        Inl e \<Rightarrow> Inl e
      | Inr front_items \<Rightarrow>
          let clauses1 =
                (if front_items \<noteq> []
                 then [''in front of you, there's '' @ natural_join front_items] else [])
          in (case format_items (by_left st) of
                Inl e \<Rightarrow> Inl e
              | Inr left_items \<Rightarrow>
                  let clauses2 =
                        (if left_items \<noteq> []
                         then clauses1 @
                              [(if clauses1 \<noteq> [] then ''while to your left, you'll find''
                                else ''to your left, there's'') @ '' '' @ natural_join left_items]
                         else clauses1)
                  in (case format_items (by_right st) of
                        Inl e \<Rightarrow> Inl e
                      | Inr right_items \<Rightarrow>
                          Inr (if right_items \<noteq> []
                               then clauses2 @
                                    [(if clauses2 \<noteq> [] then ''and to your right,''
                                      else ''to your right, there's'') @ '' '' @
                                     natural_join right_items]
                               else clauses2))))"

text \<open>
  \<open>generate_speech_summary_from_detections_strings(detections_list_strings)\<close>: the
  summary text (\<open>None\<close> when there is nothing to say) and the semantic set.
\<close>

definition generate_speech_summary_from_detections_strings ::
    "string list \<Rightarrow> py_error + (string option \<times> semantic_set)" where
  "generate_speech_summary_from_detections_strings detections_list_strings =
     (if detections_list_strings = [] then Inr (None, {})
      else let first_item = detections_list_strings ! 0
           in if py_in ''No objects'' first_item \<or> py_in ''Error'' first_item
              then Inr (None, {})
              else let st = speech_loop detections_list_strings
                              \<lparr>by_left = [], by_right = [], by_front = [],
                               current_semantic_set = {}\<rparr>
                   in (case summary_clauses st of
                         Inl e \<Rightarrow> Inl e
                       | Inr clauses \<Rightarrow>
                           if clauses = [] then Inr (None, current_semantic_set st)
                           else let final_summary =
                                      clauses ! 0 @
                                      (if length clauses > 1
                                       then '', '' @ join_with '', '' (tl clauses) else []) @
                                      ''.''
                                in if strip final_summary = [] \<or> final_summary = ''.''
                                   then Inr (None, current_semantic_set st)
                                   else Inr (Some (strip final_summary),
                                             current_semantic_set st)))"

section \<open>Decoding, suppression and remapping\<close>

text \<open>
  The detector's numbers are \<open>numpy\<close> floats, and any of them may be \<open>nan\<close> or an
  infinity. \<open>int(x)\<close> truncates a finite value towards zero.
\<close>

definition py_int :: "rat \<Rightarrow> int" where
  "py_int q = (if q < 0 then \<lceil>q\<rceil> else \<lfloor>q\<rfloor>)"

text \<open>
  \<open>preprocess_frame_for_onnx(f_bgr)\<close>, as far as the geometry goes: the scale and the
  two paddings, or \<open>None\<close> for the failure tuple \<open>(None, 0.0, 0, 0)\<close>. The tensor itself
  is only handed to the detector. A shape is \<open>(height, width)\<close>.
\<close>

definition preprocess_frame_for_onnx ::
    "(int \<times> int) option \<Rightarrow> int \<times> int \<Rightarrow> (rat \<times> int \<times> int) option" where
  "preprocess_frame_for_onnx model_input_shape f_bgr_shape =
     (case model_input_shape of
        None \<Rightarrow> None
      | Some (ih, iw) \<Rightarrow>
          (case f_bgr_shape of
             (imh, imw) \<Rightarrow>
               if imw = 0 \<or> imh = 0 then None
               else let s = min (of_int iw / of_int imw) (of_int ih / of_int imh);
                        nw = py_int (of_int imw * s);
                        nh = py_int (of_int imh * s)
                    in if nw \<le> 0 \<or> nh \<le> 0 then None
                       else Some (s, (iw - nw) div 2, (ih - nh) div 2)))"

text \<open>
  The three parallel lists \<open>b_m\<close>, \<open>cf_m\<close>, \<open>cls_m\<close> grow in lockstep; one list of
  candidates holds the three entries of each position.
\<close>

record candidate =
  box :: "pyfloat \<times> pyfloat \<times> pyfloat \<times> pyfloat"
  confidence :: pyfloat
  class_id :: nat

text \<open>
  \<open>np.argmax\<close> on a non-empty list: the first position of the maximum, and the position
  of the first \<open>nan\<close> when there is one. Its scan replaces the running maximum by every
  entry \<open>x\<close> for which \<open>x <= maximum\<close> is false, and stops at a \<open>nan\<close>.
\<close>

fun argmax_from :: "pyfloat list \<Rightarrow> nat \<Rightarrow> nat \<Rightarrow> pyfloat \<Rightarrow> nat" where
  "argmax_from [] i best_i best = best_i"
| "argmax_from (x # xs) i best_i best =
     (if best = NaN then best_i
      else if \<not> float_le x best then argmax_from xs (Suc i) i x
      else argmax_from xs (Suc i) best_i best)"

definition argmax :: "pyfloat list \<Rightarrow> nat" where
  "argmax xs = argmax_from (tl xs) 1 0 (hd xs)"

text \<open>
  The decoding loop with the confidence threshold as a parameter. A row shorter than
  \<open>4 + num_cls\<close> is skipped. With no class names the score slice is empty and
  \<open>np.argmax\<close> raises \<open>ValueError\<close>, which leaves the \<open>try\<close> block.
\<close>

fun decode_proposals ::
    "rat \<Rightarrow> nat \<Rightarrow> pyfloat list list \<Rightarrow> py_error + candidate list" where
  "decode_proposals t_conf num_cls [] = Inr []"
| "decode_proposals t_conf num_cls (prop # props) =
     (if length prop < 4 + num_cls then decode_proposals t_conf num_cls props
      else if num_cls = 0 then Inl ValueError
      else let class_scores = take num_cls (drop 4 prop);
               c_id = argmax class_scores;
               m_s = class_scores ! c_id
           in (case decode_proposals t_conf num_cls props of
                 Inl e \<Rightarrow> Inl e
               | Inr cands \<Rightarrow>
                   Inr (if float_less (Finite t_conf) m_s
                        then \<lparr>box = (prop ! 0, prop ! 1, prop ! 2, prop ! 3),
                              confidence = m_s, class_id = c_id\<rparr> # cands
                        else cands)))"

text \<open>
  Float arithmetic as far as the code uses it: sum, difference, and the quotient by a
  Python float that is finite. On finite values it is exact; on the others it follows
  IEEE 754, which \<open>numpy\<close> implements (a quotient by zero is an infinity or \<open>nan\<close>,
  not an exception).
\<close>

fun float_uminus :: "pyfloat \<Rightarrow> pyfloat" where
  "float_uminus (Finite a) = Finite (- a)"
| "float_uminus PosInf = NegInf"
| "float_uminus NegInf = PosInf"
| "float_uminus NaN = NaN"

fun float_plus :: "pyfloat \<Rightarrow> pyfloat \<Rightarrow> pyfloat" where
  "float_plus (Finite a) (Finite b) = Finite (a + b)"
| "float_plus NaN b = NaN"
| "float_plus a NaN = NaN"
| "float_plus PosInf NegInf = NaN"
| "float_plus NegInf PosInf = NaN"
| "float_plus (Finite a) b = b"
| "float_plus a b = a"

definition float_minus :: "pyfloat \<Rightarrow> pyfloat \<Rightarrow> pyfloat" where
  "float_minus a b = float_plus a (float_uminus b)"

fun float_div :: "pyfloat \<Rightarrow> rat \<Rightarrow> pyfloat" where
  "float_div (Finite a) r =
     (if r \<noteq> 0 then Finite (a / r)
      else if a > 0 then PosInf else if a < 0 then NegInf else NaN)"
| "float_div PosInf r = (if r < 0 then NegInf else PosInf)"
| "float_div NegInf r = (if r < 0 then PosInf else NegInf)"
| "float_div NaN r = NaN"

text \<open>
  \<open>int(x)\<close> on a float: truncation of a finite value, \<open>ValueError\<close> on \<open>nan\<close> and
  \<open>OverflowError\<close> on an infinity.
\<close>

fun py_int_float :: "pyfloat \<Rightarrow> py_error + int" where
  "py_int_float (Finite q) = Inr (py_int q)"
| "py_int_float NaN = Inl ValueError"
| "py_int_float x = Inl OverflowError"

text \<open>
  The rectangles \<open>cv_b\<close> handed to the suppressor: top-left corner, width, height. Each
  of the four conversions of line 132 can raise, and the list comprehension raises at
  the first box for which one of them does.
\<close>

type_synonym rect = "int \<times> int \<times> int \<times> int"

definition cv_box :: "candidate \<Rightarrow> py_error + rect" where
  "cv_box c =
     (case box c of
        (cx, cy, w, h) \<Rightarrow>
          (case py_int_float (float_minus cx (float_div w 2)) of
             Inl e \<Rightarrow> Inl e
           | Inr x \<Rightarrow>
               (case py_int_float (float_minus cy (float_div h 2)) of
                  Inl e \<Rightarrow> Inl e
                | Inr y \<Rightarrow>
                    (case py_int_float w of
                       Inl e \<Rightarrow> Inl e
                     | Inr wi \<Rightarrow>
                         (case py_int_float h of
                            Inl e \<Rightarrow> Inl e
                          | Inr hi \<Rightarrow> Inr (x, y, wi, hi))))))"

fun cv_boxes :: "candidate list \<Rightarrow> py_error + rect list" where
  "cv_boxes [] = Inr []"
| "cv_boxes (c # cs) =
     (case cv_box c of
        Inl e \<Rightarrow> Inl e
      | Inr r \<Rightarrow> (case cv_boxes cs of Inl e \<Rightarrow> Inl e | Inr rs \<Rightarrow> Inr (r # rs)))"

text \<open>
  Modelled from the spec: \<open>cv2.dnn.NMSBoxes\<close> is OpenCV's code and is not part of the
  repository, so the three definitions that follow are the Suppressor of the
  specification. This one is the Intersection-over-Union of two rectangles, the overlap
  ratio of their areas; two rectangles without area have ratio 0.
\<close>

definition iou :: "rect \<Rightarrow> rect \<Rightarrow> rat" where
  "iou a b =
     (case a of
        (ax, ay, aw, ah) \<Rightarrow>
          (case b of
             (bx, by, bw, bh) \<Rightarrow>
               let iw = max 0 (min (ax + aw) (bx + bw) - max ax bx);
                   ih = max 0 (min (ay + ah) (by + bh) - max ay by);
                   inter = iw * ih;
                   union = aw * ah + bw * bh - inter
               in if union \<le> 0 then 0 else of_int inter / of_int union))"

text \<open>
  Modelled from the spec: the greedy pass over the candidates in descending order of
  confidence. The highest remaining one is kept and every other one that overlaps it
  is discarded, until none remain.
\<close>

fun greedy_keep :: "('a \<Rightarrow> 'a \<Rightarrow> bool) \<Rightarrow> 'a list \<Rightarrow> 'a list" where
  "greedy_keep overlaps [] = []"
| "greedy_keep overlaps (x # xs) =
     x # greedy_keep overlaps (filter (\<lambda>y. \<not> overlaps x y) xs)"

text \<open>
  Modelled from the spec: the sort key of a confidence for the descending order, an
  infinite confidence first. Pairs are compared lexicographically.
\<close>

fun descending_key :: "pyfloat \<Rightarrow> nat \<times> rat" where
  "descending_key PosInf = (0, 0)"
| "descending_key (Finite q) = (1, - q)"
| "descending_key NegInf = (2, 0)"
| "descending_key NaN = (3, 0)"

text \<open>
  Modelled from the spec: the Suppressor on the rectangles and their confidences. The
  positions whose confidence exceeds the detection threshold are sorted by descending
  confidence (\<open>sort_key\<close> is stable), and two boxes overlap when their
  Intersection-over-Union exceeds \<open>t_iou\<close>. The result lists the kept positions.
\<close>

definition NMSBoxes :: "rect list \<Rightarrow> pyfloat list \<Rightarrow> rat \<Rightarrow> rat \<Rightarrow> nat list" where
  "NMSBoxes bboxes scores score_threshold nms_threshold =
     greedy_keep (\<lambda>i j. iou (bboxes ! i) (bboxes ! j) > nms_threshold)
       (sort_key (\<lambda>i. descending_key (scores ! i))
          (filter (\<lambda>i. float_less (Finite score_threshold) (scores ! i))
             [0..<min (length bboxes) (length scores)]))"

text \<open>One entry of \<open>detections_json\<close>; the box is \<open>(x1c, y1c, x2c, y2c)\<close>.\<close>

record detection =
  det_class_name :: string
  det_score :: pyfloat
  det_direction :: string
  det_bbox :: "int \<times> int \<times> int \<times> int"

text \<open>\<open>f"{score:.2f}"\<close> and \<open>float(f"{score:.2f}")\<close>: two decimals, ties to even.\<close>

definition round_half_even :: "rat \<Rightarrow> int" where
  "round_half_even q =
     (let f = \<lfloor>q\<rfloor>; r = q - of_int f
      in if r < 1 / 2 then f else if r > 1 / 2 then f + 1 else if even f then f else f + 1)"

definition format_2f :: "rat \<Rightarrow> string" where
  "format_2f q =
     (let n = nat (round_half_even (\<bar>q\<bar> * 100))
      in (if q < 0 then ''-'' else []) @ str_nat (n div 100) @ ''.'' @
         [''0123456789'' ! (n mod 100 div 10), ''0123456789'' ! (n mod 10)])"

definition round_2f :: "rat \<Rightarrow> rat" where
  "round_2f q =
     (let v = of_int (round_half_even (\<bar>q\<bar> * 100)) / 100 in if q < 0 then - v else v)"

text \<open>The same two for any float: the values that are not finite are written as words.\<close>

fun format_score :: "pyfloat \<Rightarrow> string" where
  "format_score (Finite q) = format_2f q"
| "format_score PosInf = ''inf''"
| "format_score NegInf = ''-inf''"
| "format_score NaN = ''nan''"

fun round_score :: "pyfloat \<Rightarrow> pyfloat" where
  "round_score (Finite q) = Finite (round_2f q)"
| "round_score x = x"

text \<open>
  Lines 141 to 145 for one kept box: the inverse letterbox mapping in float arithmetic,
  the four conversions of line 143, each of which can raise, the clamping, and the test
  \<open>x1c < x2c and y1c < y2c\<close>: \<open>Inr None\<close> when it fails and nothing is emitted. The
  function has returned before the loop when \<open>scale == 0\<close>.
\<close>

definition remap_float_box ::
    "rat \<Rightarrow> int \<Rightarrow> int \<Rightarrow> int \<Rightarrow> int \<Rightarrow> pyfloat \<times> pyfloat \<times> pyfloat \<times> pyfloat \<Rightarrow>
     py_error + (int \<times> int \<times> int \<times> int) option" where
  "remap_float_box scale dw dh original_width original_height b =
     (case b of
        (cx, cy, w, h) \<Rightarrow>
          let ox = float_div (float_minus cx (Finite (of_int dw))) scale;
              oy = float_div (float_minus cy (Finite (of_int dh))) scale;
              ow = float_div w scale; oh = float_div h scale
          in (case py_int_float (float_minus ox (float_div ow 2)) of
                Inl e \<Rightarrow> Inl e
              | Inr x1 \<Rightarrow>
                  (case py_int_float (float_minus oy (float_div oh 2)) of
                     Inl e \<Rightarrow> Inl e
                   | Inr y1 \<Rightarrow>
                       (case py_int_float (float_plus ox (float_div ow 2)) of
                          Inl e \<Rightarrow> Inl e
                        | Inr x2 \<Rightarrow>
                            (case py_int_float (float_plus oy (float_div oh 2)) of
                               Inl e \<Rightarrow> Inl e
                             | Inr y2 \<Rightarrow>
                                 let x1c = max 0 x1; y1c = max 0 y1;
                                     x2c = min (original_width - 1) x2;
                                     y2c = min (original_height - 1) y2
                                 in Inr (if x1c < x2c \<and> y1c < y2c
                                         then Some (x1c, y1c, x2c, y2c) else None))))))"

text \<open>
  The same remap for a box of four finite numbers, on which no conversion raises and
  the arithmetic is that of the rationals: the clamped corners, or \<open>None\<close> when the
  test \<open>x1c < x2c and y1c < y2c\<close> fails and nothing is emitted. The divisions are by a
  non-zero scale.
\<close>

definition remap_box ::
    "rat \<Rightarrow> int \<Rightarrow> int \<Rightarrow> int \<Rightarrow> int \<Rightarrow> rat \<times> rat \<times> rat \<times> rat \<Rightarrow>
     (int \<times> int \<times> int \<times> int) option" where
  "remap_box scale dw dh original_width original_height b =
     (case b of
        (cx, cy, w, h) \<Rightarrow>
          let ox = (cx - of_int dw) / scale; oy = (cy - of_int dh) / scale;
              ow = w / scale; oh = h / scale;
              x1 = py_int (ox - ow / 2); y1 = py_int (oy - oh / 2);
              x2 = py_int (ox + ow / 2); y2 = py_int (oy + oh / 2);
              x1c = max 0 x1; y1c = max 0 y1;
              x2c = min (original_width - 1) x2; y2c = min (original_height - 1) y2
          in if x1c < x2c \<and> y1c < y2c then Some (x1c, y1c, x2c, y2c) else None)"

definition direction_of :: "int \<Rightarrow> int \<Rightarrow> int \<Rightarrow> string" where
  "direction_of x1c x2c original_width =
     (let obj_cx = (of_int (x1c + x2c) :: rat) / 2
      in if obj_cx < of_int original_width / 2 - of_int original_width * (1 / 10)
         then ''left''
         else if obj_cx > of_int original_width / 2 + of_int original_width * (1 / 10)
         then ''right''
         else ''front'')"

text \<open>
  The body of the loop over \<open>indices\<close> for one index: \<open>Inl IndexError\<close> when the
  index is out of range, the error of a conversion that raises, \<open>Inr None\<close> when
  nothing is emitted, and otherwise the entry appended to \<open>detections_info\<close> with the
  entry appended to \<open>detections_json\<close>.
\<close>

definition emit_one ::
    "string list \<Rightarrow> rat \<Rightarrow> int \<Rightarrow> int \<Rightarrow> int \<Rightarrow> int \<Rightarrow> candidate list \<Rightarrow> nat \<Rightarrow>
     py_error + (string \<times> detection) option" where
  "emit_one class_names scale dw dh original_width original_height cands i =
     (if i \<ge> length cands then Inl IndexError
      else let c_id = class_id (cands ! i)
           in if c_id \<ge> length class_names then Inr None
              else (case remap_float_box scale dw dh original_width original_height
                           (box (cands ! i)) of
                      Inl e \<Rightarrow> Inl e
                    | Inr None \<Rightarrow> Inr None
                    | Inr (Some (x1c, y1c, x2c, y2c)) \<Rightarrow>
                        let c_n = class_names ! c_id;
                            score = confidence (cands ! i);
                            direction = direction_of x1c x2c original_width
                        in Inr (Some
                             (before_comma c_n @ '' ('' @ direction @ '') ['' @
                                format_score score @ '']'',
                              \<lparr>det_class_name = before_comma c_n,
                               det_score = round_score score,
                               det_direction = direction,
                               det_bbox = (x1c, y1c, x2c, y2c)\<rparr>))))"

text \<open>
  The loop over \<open>indices\<close>: the entries appended to the two lists, and whether the loop
  was left by an exception (the entries appended before it stay in the lists).
\<close>

fun emit_detections ::
    "string list \<Rightarrow> rat \<Rightarrow> int \<Rightarrow> int \<Rightarrow> int \<Rightarrow> int \<Rightarrow> candidate list \<Rightarrow> nat list \<Rightarrow>
     (string \<times> detection) list \<times> bool" where
  "emit_detections class_names scale dw dh original_width original_height cands [] = ([], False)"
| "emit_detections class_names scale dw dh original_width original_height cands (i # is) =
     (case emit_one class_names scale dw dh original_width original_height cands i of
        Inl e \<Rightarrow> ([], True)
      | Inr r \<Rightarrow>
          (case emit_detections class_names scale dw dh original_width original_height cands is of
             (ds, raised) \<Rightarrow> ((case r of None \<Rightarrow> ds | Some d \<Rightarrow> d # ds), raised)))"

text \<open>
  The \<open>try\<close> block after the detector has run, with both thresholds as parameters:
  the kept indices, the entries the emitting loop appended and its exception flag, or
  \<open>Inl\<close> when decoding or the conversion of the boxes raised, before anything was
  emitted. It is reached with a non-zero scale only.
\<close>

definition decode_suppress_remap ::
    "rat \<Rightarrow> rat \<Rightarrow> string list \<Rightarrow> rat \<Rightarrow> int \<Rightarrow> int \<Rightarrow> int \<Rightarrow> int \<Rightarrow>
     pyfloat list list \<Rightarrow> py_error + (nat list \<times> (string \<times> detection) list \<times> bool)" where
  "decode_suppress_remap t_conf t_iou class_names scale dw dh original_width original_height
       proposals =
     (case decode_proposals t_conf (length class_names) proposals of
        Inl e \<Rightarrow> Inl e
      | Inr cands \<Rightarrow>
          (case cv_boxes cands of
             Inl e \<Rightarrow> Inl e
           | Inr cv_b \<Rightarrow>
               let indices =
                     (if cv_b \<noteq> [] then NMSBoxes cv_b (map confidence cands) t_conf t_iou
                      else [])
               in if length indices > 0
                  then Inr (indices,
                            emit_detections class_names scale dw dh original_width
                              original_height cands indices)
                  else Inr (indices, [], False)))"

text \<open>The detections a run of the pipeline reports, none when decoding raised.\<close>

definition surviving_detections ::
    "rat \<Rightarrow> rat \<Rightarrow> string list \<Rightarrow> rat \<Rightarrow> int \<Rightarrow> int \<Rightarrow> int \<Rightarrow> int \<Rightarrow>
     pyfloat list list \<Rightarrow> detection list" where
  "surviving_detections t_conf t_iou class_names scale dw dh original_width original_height
       proposals =
     (case decode_suppress_remap t_conf t_iou class_names scale dw dh original_width
             original_height proposals of
        Inl e \<Rightarrow> []
      | Inr (indices, ds, raised) \<Rightarrow> map snd ds)"

section \<open>The server state and the image route\<close>

record server_state =
  detection_active :: bool
  onnx_session :: bool
  model_input_shape :: "(int \<times> int) option"
  class_names :: "string list"
  announce_scene_clear :: bool
  last_generated_speech_text :: string
  last_semantic_summary_set :: semantic_set
  last_announcement_text_generation_time :: rat

text \<open>
  \<open>perform_inference_and_postprocess\<close>: the pair \<open>(detections_info, detections_json)\<close>;
  the drawn frame is pixels only and is left out. The detector is opaque: its raw
  proposal rows are an input, \<open>None\<close> when running it raised.
\<close>

definition perform_inference_and_postprocess ::
    "server_state \<Rightarrow> int \<times> int \<Rightarrow> pyfloat list list option \<Rightarrow> int \<Rightarrow> int \<Rightarrow>
     string list \<times> detection list" where
  "perform_inference_and_postprocess st frame_shape detector_output original_width
       original_height =
     (case preprocess_frame_for_onnx (model_input_shape st) frame_shape of
        None \<Rightarrow> ([], [])
      | Some (scale, dw, dh) \<Rightarrow>
          if scale = 0 then ([], [])
          else if \<not> onnx_session st then ([''ONNX model not loaded.''], [])
          else (case detector_output of
                  None \<Rightarrow> ([''Infer Error.''], [])
                | Some proposals \<Rightarrow>
                    (case decode_suppress_remap CONF_THRESHOLD NMS_THRESHOLD (class_names st)
                            scale dw dh original_width original_height proposals of
                       Inl e \<Rightarrow> ([''Infer Error.''], [])
                     | Inr (indices, ds, raised) \<Rightarrow>
                         if length indices > 0
                         then (map fst ds @ (if raised then [''Infer Error.''] else []),
                               map snd ds)
                         else ([''No objects (Conf:0.37,NMS:0.35).''], []))))"

text \<open>Lines 250 to 252 of the route: the text this response carries.\<close>

definition speech_for_this_response :: "server_state \<Rightarrow> string option \<Rightarrow> string option" where
  "speech_for_this_response st generated_summary_text =
     (if generated_summary_text \<noteq> None \<and> generated_summary_text \<noteq> Some []
      then generated_summary_text
      else if announce_scene_clear st \<and> last_semantic_summary_set st \<noteq> {}
      then Some ''Scene clear.''
      else None)"

text \<open>Lines 253 to 257: whether the scene calls for a new announcement.\<close>

definition make_new_announcement ::
    "server_state \<Rightarrow> string option \<Rightarrow> semantic_set \<Rightarrow> bool" where
  "make_new_announcement st speech current =
     (case speech of
        None \<Rightarrow> False
      | Some text \<Rightarrow>
          if text = [] then False
          else if text = ''Scene clear.'' then last_semantic_summary_set st \<noteq> {}
          else current \<noteq> last_semantic_summary_set st \<or> last_semantic_summary_set st = {})"

text \<open>The test of line 258: the announcement is committed.\<close>

definition commits :: "server_state \<Rightarrow> string option \<Rightarrow> semantic_set \<Rightarrow> rat \<Rightarrow> bool" where
  "commits st speech current time_now =
     (make_new_announcement st speech current \<and>
      time_now - last_announcement_text_generation_time st > TTS_ANNOUNCEMENT_COOLDOWN)"

text \<open>Lines 258 to 261: the three globals after the frame.\<close>

definition announce :: "server_state \<Rightarrow> string option \<Rightarrow> semantic_set \<Rightarrow> rat \<Rightarrow> server_state" where
  "announce st speech current time_now =
     (case speech of
        None \<Rightarrow> st
      | Some text \<Rightarrow>
          if commits st speech current time_now
          then st\<lparr>last_generated_speech_text := text,
                  last_semantic_summary_set := (if text = ''Scene clear.'' then {} else current),
                  last_announcement_text_generation_time := time_now\<rparr>
          else st)"

text \<open>
  Lines 249 to 261 as one step of the announcement state machine: from the summary of
  the frame and the clock reading to the new state and the text of the response.
\<close>

definition announcement_step ::
    "server_state \<Rightarrow> string option \<times> semantic_set \<Rightarrow> rat \<Rightarrow> server_state \<times> string option" where
  "announcement_step st summary time_now =
     (case summary of
        (generated_summary_text, current) \<Rightarrow>
          let speech = speech_for_this_response st generated_summary_text
          in (announce st speech current time_now, speech))"

text \<open>
  One request to \<open>/process_image\<close>. \<open>frame_shape\<close> is \<open>(vid_height, vid_width)\<close> of the
  decoded image, \<open>None\<close> when reading or decoding it raised.
\<close>

record request =
  has_image :: bool
  filename :: string
  frame_shape :: "(int \<times> int) option"
  detector_output :: "pyfloat list list option"
  draw_boxes :: string
  imencode_ok :: bool

datatype response =
    Paused
  | Rejected nat string
  | ServerError
  | ImageJpeg
  | Detections "string list" "detection list" "string option"

text \<open>The \<open>speech_output\<close> field of a response.\<close>

fun speech_output :: "response \<Rightarrow> string option" where
  "speech_output Paused = Some ''Detection is currently paused.''"
| "speech_output (Detections detections_text detections_json speech) = speech"
| "speech_output r = None"

text \<open>
  \<open>process_image_route\<close>, with the clock reading \<open>time.time()\<close> as the argument
  \<open>time_now\<close>. An exception that leaves the summary builder is not caught by the
  route: the request fails and no global has been written.
\<close>

definition process_image_route :: "server_state \<Rightarrow> request \<Rightarrow> rat \<Rightarrow> server_state \<times> response" where
  "process_image_route st req time_now =
     (if \<not> detection_active st then (st, Paused)
      else if \<not> has_image req then (st, Rejected 400 ''No image file provided.'')
      else if filename req = [] then (st, Rejected 400 ''No selected file.'')
      else (case frame_shape req of
              None \<Rightarrow> (st, Rejected 400 ''Could not process image'')
            | Some (vid_height, vid_width) \<Rightarrow>
                if \<not> onnx_session st then (st, Rejected 503 ''ONNX model not loaded.'')
                else (case perform_inference_and_postprocess st (vid_height, vid_width)
                             (detector_output req) vid_width vid_height of
                        (detection_strings, detections_json_data) \<Rightarrow>
                          (case generate_speech_summary_from_detections_strings
                                  detection_strings of
                             Inl e \<Rightarrow> (st, ServerError)
                           | Inr summary \<Rightarrow>
                               (case announcement_step st summary time_now of
                                  (st', speech) \<Rightarrow>
                                    (st',
                                     if lower (draw_boxes req) = ''true'' \<and> imencode_ok req
                                     then ImageJpeg
                                     else Detections detection_strings detections_json_data
                                            speech))))))"

section \<open>Notions of the specification\<close>








text \<open>
  A text the summary builder can return: it is not empty and it is not the scene-clear
  text, since every summary opens with a direction clause.
\<close>

definition real_summary :: "string \<Rightarrow> bool" where
  "real_summary text = (text \<noteq> [] \<and> text \<noteq> ''Scene clear.'')"

text \<open>A request that passes every early return of the route and reaches the detector.\<close>

definition accepted :: "server_state \<Rightarrow> request \<Rightarrow> bool" where
  "accepted st req =
     (detection_active st \<and> has_image req \<and> filename req \<noteq> [] \<and> frame_shape req \<noteq> None \<and>
      onnx_session st)"

text \<open>
  The two ways in which the processing of an accepted frame fails. The letterbox fails:
  \<open>preprocess_frame_for_onnx\<close> returns no tensor, or a scale of 0. Or the \<open>try\<close>
  block raises, and the detection strings carry its marker \<open>Infer Error.\<close>.
\<close>

definition letterbox_failed :: "server_state \<Rightarrow> int \<times> int \<Rightarrow> bool" where
  "letterbox_failed st shape =
     (case preprocess_frame_for_onnx (model_input_shape st) shape of
        None \<Rightarrow> True
      | Some (scale, dw, dh) \<Rightarrow> scale = 0)"

definition failed_frame :: "server_state \<Rightarrow> request \<Rightarrow> bool" where
  "failed_frame st req =
     (case frame_shape req of
        None \<Rightarrow> False
      | Some (vid_height, vid_width) \<Rightarrow>
          accepted st req \<and>
          (letterbox_failed st (vid_height, vid_width) \<or>
           ''Infer Error.'' \<in>
             set (fst (perform_inference_and_postprocess st (vid_height, vid_width)
                         (detector_output req) vid_width vid_height))))"

text \<open>A finite float, and the four numbers of a box as rationals when all are finite.\<close>

fun is_finite :: "pyfloat \<Rightarrow> bool" where
  "is_finite (Finite q) = True"
| "is_finite x = False"

fun finite_box ::
    "pyfloat \<times> pyfloat \<times> pyfloat \<times> pyfloat \<Rightarrow> (rat \<times> rat \<times> rat \<times> rat) option" where
  "finite_box (Finite cx, Finite cy, Finite w, Finite h) = Some (cx, cy, w, h)"
| "finite_box b = None"

text \<open>What the loop over \<open>indices\<close> appends for one kept candidate.\<close>

definition emit_candidate ::
    "string list \<Rightarrow> rat \<Rightarrow> int \<Rightarrow> int \<Rightarrow> int \<Rightarrow> int \<Rightarrow> candidate \<Rightarrow>
     (string \<times> detection) option" where
  "emit_candidate names scale dw dh original_width original_height c =
     (case emit_one names scale dw dh original_width original_height [c] 0 of
        Inl e \<Rightarrow> None
      | Inr r \<Rightarrow> r)"

text \<open>
  The rectangle of a candidate whose conversion does not raise, and the candidates the
  suppressor keeps, in the order of its index list.
\<close>

definition rect_of :: "candidate \<Rightarrow> rect" where
  "rect_of c = (case cv_box c of Inl e \<Rightarrow> (0, 0, 0, 0) | Inr r \<Rightarrow> r)"

definition kept_candidates :: "rat \<Rightarrow> rat \<Rightarrow> candidate list \<Rightarrow> candidate list" where
  "kept_candidates t_conf t_iou cands =
     map ((!) cands) (NMSBoxes (map rect_of cands) (map confidence cands) t_conf t_iou)"

text \<open>
  The clamped corners \<open>(x1c, y1c, x2c, y2c)\<close> of a remapped box: the letterbox mapping
  inverted, the box in corner form, the upper-left corner clamped from below by 0 and
  the lower-right corner from above by \<open>width - 1\<close> and \<open>height - 1\<close>.
\<close>

definition clamped_corners ::
    "rat \<Rightarrow> int \<Rightarrow> int \<Rightarrow> int \<Rightarrow> int \<Rightarrow> rat \<times> rat \<times> rat \<times> rat \<Rightarrow> int \<times> int \<times> int \<times> int" where
  "clamped_corners scale dw dh original_width original_height b =
     (case b of
        (cx, cy, w, h) \<Rightarrow>
          (max 0 (py_int ((cx - of_int dw) / scale - w / scale / 2)),
           max 0 (py_int ((cy - of_int dh) / scale - h / scale / 2)),
           min (original_width - 1) (py_int ((cx - of_int dw) / scale + w / scale / 2)),
           min (original_height - 1) (py_int ((cy - of_int dh) / scale + h / scale / 2))))"

text \<open>A box lies inside an image of the given width and height, corners in order.\<close>

definition box_in_image :: "int \<Rightarrow> int \<Rightarrow> int \<times> int \<times> int \<times> int \<Rightarrow> bool" where
  "box_in_image original_width original_height b =
     (case b of
        (x1, y1, x2, y2) \<Rightarrow>
          0 \<le> x1 \<and> x1 < x2 \<and> x2 \<le> original_width - 1 \<and>
          0 \<le> y1 \<and> y1 < y2 \<and> y2 \<le> original_height - 1)"

section \<open>Example inputs\<close>

text \<open>
  A server with two classes and a 640 by 640 detector: freshly started, and after it
  announced a cat in front at time 1000.
\<close>

definition idle_state :: server_state where
  "idle_state =
     \<lparr>detection_active = True, onnx_session = True, model_input_shape = Some (640, 640),
      class_names = [''cat'', ''dog''], announce_scene_clear = True,
      last_generated_speech_text = [], last_semantic_summary_set = {},
      last_announcement_text_generation_time = 0\<rparr>"

definition example_state :: server_state where
  "example_state =
     \<lparr>detection_active = True, onnx_session = True, model_input_shape = Some (640, 640),
      class_names = [''cat'', ''dog''], announce_scene_clear = True,
      last_generated_speech_text = ''in front of you, there's a cat.'',
      last_semantic_summary_set = {(''cat'', ''front'')},
      last_announcement_text_generation_time = 1000\<rparr>"

text \<open>The summary of a frame that shows one dog to the left.\<close>

definition dog_summary :: "string option \<times> semantic_set" where
  "dog_summary = (Some ''to your left, there's a dog.'', {(''dog'', ''left'')})"

text \<open>
  Requests with a frame of 640 by 480 pixels: one on which the detector raises, and one
  for which it returns no proposal at all.
\<close>

definition failing_request :: request where
  "failing_request =
     \<lparr>has_image = True, filename = ''frame.jpg'', frame_shape = Some (480, 640),
      detector_output = None, draw_boxes = ''false'', imencode_ok = True\<rparr>"

definition empty_request :: request where
  "empty_request =
     \<lparr>has_image = True, filename = ''frame.jpg'', frame_shape = Some (480, 640),
      detector_output = Some [], draw_boxes = ''false'', imencode_ok = True\<rparr>"

text \<open>
  Three more requests: a frame one pixel wide and 641 pixels high, for which the
  letterbox fails; a frame whose proposals hold a box with a \<open>nan\<close> coordinate; and a
  frame with one sound proposal. The two states are the example state of a server
  whose one class is named \<open>y\<close>, and of a server that has loaded no class names.
\<close>

definition thin_request :: request where
  "thin_request =
     \<lparr>has_image = True, filename = ''frame.jpg'', frame_shape = Some (641, 1),
      detector_output = Some [], draw_boxes = ''false'', imencode_ok = True\<rparr>"

definition nan_request :: request where
  "nan_request =
     \<lparr>has_image = True, filename = ''frame.jpg'', frame_shape = Some (480, 640),
      detector_output =
        Some [[NaN, Finite 200, Finite 40, Finite 40, Finite (1 / 2), Finite (1 / 10)],
              [Finite 300, Finite 200, Finite 40, Finite 40, Finite (9 / 10), Finite (1 / 10)]],
      draw_boxes = ''false'', imencode_ok = True\<rparr>"

definition sound_request :: request where
  "sound_request =
     \<lparr>has_image = True, filename = ''frame.jpg'', frame_shape = Some (480, 640),
      detector_output =
        Some [[Finite 300, Finite 200, Finite 40, Finite 40, Finite (9 / 10), Finite (1 / 10)]],
      draw_boxes = ''false'', imencode_ok = True\<rparr>"

definition y_state :: server_state where
  "y_state =
     \<lparr>detection_active = True, onnx_session = True, model_input_shape = Some (640, 640),
      class_names = [''y''], announce_scene_clear = True,
      last_generated_speech_text = ''in front of you, there's a cat.'',
      last_semantic_summary_set = {(''cat'', ''front'')},
      last_announcement_text_generation_time = 1000\<rparr>"

definition nameless_state :: server_state where
  "nameless_state =
     \<lparr>detection_active = True, onnx_session = True, model_input_shape = Some (640, 640),
      class_names = [], announce_scene_clear = True,
      last_generated_speech_text = ''in front of you, there's a cat.'',
      last_semantic_summary_set = {(''cat'', ''front'')},
      last_announcement_text_generation_time = 1000\<rparr>"

text \<open>
  Three proposal rows for two classes: a cat, a dog, and a second cat box that overlaps
  the first; and three rectangles with scores for the suppressor alone.
\<close>

definition three_proposals :: "pyfloat list list" where
  "three_proposals =
     map (map Finite)
       [[300, 200, 40, 40, 9 / 10, 1 / 10], [100, 320, 50, 50, 1 / 5, 1 / 2],
        [304, 200, 40, 40, 4 / 5, 1 / 10]]"

text \<open>
  Two proposal rows: a box whose first coordinate is \<open>nan\<close> with best score 0.5, and a
  sound cat box with score 0.9.
\<close>

definition nan_proposals :: "pyfloat list list" where
  "nan_proposals =
     [[NaN, Finite 200, Finite 40, Finite 40, Finite (1 / 2), Finite (1 / 10)],
      [Finite 300, Finite 200, Finite 40, Finite 40, Finite (9 / 10), Finite (1 / 10)]]"

definition three_rects :: "rect list" where
  "three_rects = [(0, 0, 10, 10), (1, 1, 10, 10), (20, 20, 5, 5)]"

definition three_scores :: "pyfloat list" where
  "three_scores = map Finite [1 / 2, 9 / 10, 7 / 10]"

section \<open>The class and count formatter\<close>

lemma endswith_iff_suffix: "endswith s suf = suffix suf s"
  unfolding endswith_def suffix_def
proof
  assume h: "length suf \<le> length s \<and> drop (length s - length suf) s = suf"
  then have "s = take (length s - length suf) s @ suf" by (metis append_take_drop_id)
  then show "\<exists>zs. s = zs @ suf" by blast
next
  assume "\<exists>zs. s = zs @ suf"
  then obtain zs where "s = zs @ suf" by blast
  then show "length suf \<le> length s \<and> drop (length s - length suf) s = suf" by simp
qed





lemma plural_error: "(\<exists>e. plural_name name = Inl e) \<longleftrightarrow> name = ''y''"
  by (auto simp: plural_name_def endswith_iff_suffix suffix_def  split: if_splits)

lemma format_error:
  "(\<exists>e. format_object_with_count name count = Inl e) \<longleftrightarrow> name = ''y'' \<or> name = [] \<and> count = 1"
proof (cases "plural_name name")
  case (Inl e)
  then have "name = ''y''" using plural_error[of name] by blast
  with Inl show ?thesis by (simp add: format_object_with_count_def)
next
  case (Inr p)
  then have "name \<noteq> ''y''" using plural_error[of name] by auto
  with Inr show ?thesis by (auto simp: format_object_with_count_def)
qed

text \<open>
  Claim C10. The formatter returns a text for every name of at least two characters.
  It raises \<open>IndexError\<close> for the name \<open>y\<close> with any count (the read of \<open>name[-2]\<close>)
  and for the empty name with count 1 (the read of \<open>name[0]\<close>); these are its only
  failures.
\<close>

theorem format_object_with_count_total:
  "(2 \<le> length name \<longrightarrow> (\<exists>s. format_object_with_count name count = Inr s)) \<and>
   format_object_with_count ''y'' count = Inl IndexError \<and>
   format_object_with_count [] 1 = Inl IndexError \<and>
   ((\<exists>e. format_object_with_count name count = Inl e) \<longleftrightarrow>
      name = ''y'' \<or> name = [] \<and> count = 1)"
proof (intro conjI impI)
  assume "2 \<le> length name"
  then have "\<not> (name = ''y'' \<or> name = [] \<and> count = 1)" by auto
  then have "\<not> (\<exists>e. format_object_with_count name count = Inl e)"
    using format_error[of name count] by blast
  then show "\<exists>s. format_object_with_count name count = Inr s"
    by (cases "format_object_with_count name count") auto
next
  show "format_object_with_count ''y'' count = Inl IndexError"
    by (simp add: format_object_with_count_def plural_name_def endswith_def)
next
  show "format_object_with_count [] 1 = Inl IndexError"
    by (simp add: format_object_with_count_def plural_name_def endswith_def)
next
  show "(\<exists>e. format_object_with_count name count = Inl e) \<longleftrightarrow>
      name = ''y'' \<or> name = [] \<and> count = 1" by (rule format_error)
qed

theorem format_object_with_count_total_witness:
  "2 \<le> length ''ox'' \<and> format_object_with_count ''ox'' 2 = Inr ''two oxes'' \<and>
   format_object_with_count ''s'' 1 = Inr ''a s''"
proof -
  have a: "\<exists>s. format_object_with_count ''ox'' 2 = Inr s"
    using format_object_with_count_total[of "''ox''" 2] by simp
  have b: "\<not> (\<exists>e. format_object_with_count ''s'' 1 = Inl e)"
    using format_object_with_count_total[of "''s''" 1] by simp
  from a b show ?thesis
    by (simp add: format_object_with_count_def plural_name_def endswith_def in_aeiou_def lower_char_def)
qed












section \<open>The thresholds\<close>

lemma round_half_even_ge_floor: "\<lfloor>q\<rfloor> \<le> round_half_even q"
  by (simp add: round_half_even_def Let_def)

lemma round_2f_above: 
  assumes "s > CONF_THRESHOLD" shows "\<not> round_2f s < SPEECH_CONF_THRESHOLD"
proof -
  from assms have pos: "s > 0" and "s * 100 > 37" by (simp_all add: CONF_THRESHOLD_def)
  then have "(37::int) \<le> \<lfloor>\<bar>s\<bar> * 100\<rfloor>" by (simp add: le_floor_iff)
  then have "(37::int) \<le> round_half_even (\<bar>s\<bar> * 100)"
    using round_half_even_ge_floor[of "\<bar>s\<bar> * 100"] by linarith
  then have "(37::rat) \<le> of_int (round_half_even (\<bar>s\<bar> * 100))" by linarith
  with pos show ?thesis
    by (simp add: round_2f_def SPEECH_CONF_THRESHOLD_def Let_def)
qed

text \<open>
  Claim C2 as stated, \<open>SPEECH_CONF_THRESHOLD \<ge> CONF_THRESHOLD\<close>, fails for the configured
  constants.
\<close>

theorem speech_threshold_not_stricter_counterexample:
  "\<not> SPEECH_CONF_THRESHOLD \<ge> CONF_THRESHOLD"
  by (simp add: SPEECH_CONF_THRESHOLD_def CONF_THRESHOLD_def)

text \<open>
  Claim C2, amended. The speech threshold 0.30 lies strictly below the detection
  threshold 0.37, so the speech filter is the weaker one: a confidence above the
  detection threshold is never dropped by the test \<open>score < SPEECH_CONF_THRESHOLD\<close>,
  neither as it is nor rounded to the two decimals of the detection string.
\<close>

theorem speech_threshold_below_detection_threshold:
  "SPEECH_CONF_THRESHOLD = 30 / 100 \<and> CONF_THRESHOLD = 37 / 100 \<and>
   SPEECH_CONF_THRESHOLD < CONF_THRESHOLD \<and>
   (\<forall>s. s > CONF_THRESHOLD \<longrightarrow> \<not> s < SPEECH_CONF_THRESHOLD \<and> \<not> round_2f s < SPEECH_CONF_THRESHOLD)"
  using round_2f_above by (auto simp: SPEECH_CONF_THRESHOLD_def CONF_THRESHOLD_def)

theorem speech_threshold_below_detection_threshold_witness:
  "(1 / 2 :: rat) > CONF_THRESHOLD \<and> \<not> (1 / 2 :: rat) < SPEECH_CONF_THRESHOLD \<and>
   \<not> round_2f (1 / 2) < SPEECH_CONF_THRESHOLD"
proof -
  have h: "(1 / 2 :: rat) > CONF_THRESHOLD" by (simp add: CONF_THRESHOLD_def)
  with speech_threshold_below_detection_threshold show ?thesis by blast
qed

section \<open>The end-to-end scenario\<close>

text \<open>
  Claim C5. Two cats in front with confidences 0.9 and 0.8 and a dog to the left with
  0.5 are written by the emitting loop as the three detection strings below, and on
  these strings the summary builder returns exactly the sentence of the specification.
\<close>

theorem summary_two_cats_and_a_dog:
  "emit_detections [''cat'', ''dog''] 1 0 80 640 480
     [\<lparr>box = (Finite 300, Finite 200, Finite 40, Finite 40), confidence = Finite (9 / 10),
       class_id = 0\<rparr>,
      \<lparr>box = (Finite 340, Finite 300, Finite 40, Finite 40), confidence = Finite (4 / 5),
       class_id = 0\<rparr>,
      \<lparr>box = (Finite 100, Finite 320, Finite 50, Finite 50), confidence = Finite (1 / 2),
       class_id = 1\<rparr>]
     [0, 1, 2] =
   ([(''cat (front) [0.90]'',
      \<lparr>det_class_name = ''cat'', det_score = Finite (9 / 10), det_direction = ''front'',
       det_bbox = (280, 100, 320, 140)\<rparr>),
     (''cat (front) [0.80]'',
      \<lparr>det_class_name = ''cat'', det_score = Finite (4 / 5), det_direction = ''front'',
       det_bbox = (320, 200, 360, 240)\<rparr>),
     (''dog (left) [0.50]'',
      \<lparr>det_class_name = ''dog'', det_score = Finite (1 / 2), det_direction = ''left'',
       det_bbox = (75, 215, 125, 265)\<rparr>)],
    False) \<and>
   generate_speech_summary_from_detections_strings
     [''cat (front) [0.90]'', ''cat (front) [0.80]'', ''dog (left) [0.50]''] =
   Inr (Some ''in front of you, there's two cats, while to your left, you'll find a dog.'',
        {(''cat'', ''front''), (''dog'', ''left'')})"
  by code_simp

section \<open>The announcement state machine\<close>

lemma announce_unchanged: "\<not> commits st speech current time_now \<Longrightarrow> announce st speech current time_now = st"
  by (cases speech) (simp_all add: announce_def)

lemma announcement_step_eq:
  "announcement_step st (generated, current) time_now =
     (announce st (speech_for_this_response st generated) current time_now,
      speech_for_this_response st generated)"
  by (simp add: announcement_step_def Let_def)

lemma announce_commit:
  "commits st (Some text) current time_now \<Longrightarrow>
   announce st (Some text) current time_now =
     st\<lparr>last_generated_speech_text := text,
        last_semantic_summary_set := (if text = ''Scene clear.'' then {} else current),
        last_announcement_text_generation_time := time_now\<rparr>"
  by (simp add: announce_def)

lemma dropWhile_snoc_keep: "\<not> P c \<Longrightarrow> dropWhile P (xs @ [c]) = dropWhile P xs @ [c]"
  by (induction xs) auto

lemma strip_keeps_head: "\<not> is_space c \<Longrightarrow> \<exists>r'. strip (c # r) = c # r'"
  by (simp add: strip_def dropWhile_snoc_keep)

lemma summary_clauses_head:
  assumes "summary_clauses st = Inr clauses" and "clauses \<noteq> []"
  shows "\<exists>r. clauses ! 0 = CHR ''i'' # r \<or> clauses ! 0 = CHR ''t'' # r"
  using assms unfolding summary_clauses_def
  by (auto simp: Let_def nth_append split: sum.splits if_splits)

lemma summary_is_real:
  assumes "generate_speech_summary_from_detections_strings ds = Inr (Some text, S)"
  shows "real_summary text"
proof -
  define st where "st = speech_loop ds
      \<lparr>by_left = [], by_right = [], by_front = [], current_semantic_set = {}\<rparr>"
  from assms obtain clauses where sc: "summary_clauses st = Inr clauses"
    unfolding generate_speech_summary_from_detections_strings_def st_def
    by (auto simp: Let_def split: if_splits sum.splits)
  define mid where
    "mid = (if length clauses > 1 then '', '' @ join_with '', '' (tl clauses) else [])"
  from assms sc have ne: "clauses \<noteq> []" and t: "text = strip (clauses ! 0 @ mid @ ''.'')"
    unfolding generate_speech_summary_from_detections_strings_def st_def[symmetric] mid_def
    by (auto simp: Let_def split: if_splits)
  from summary_clauses_head[OF sc ne] obtain c r where
    c: "c = CHR ''i'' \<or> c = CHR ''t''" and r: "clauses ! 0 = c # r" by blast
  from c have "\<not> is_space c" by (auto simp: is_space_def)
  then obtain r' where "strip (c # (r @ mid @ ''.'')) = c # r'"
    using strip_keeps_head by blast
  with t r have "text = c # r'" by simp
  with c show ?thesis by (auto simp: real_summary_def)
qed

text \<open>
  Claim C3 as stated fails: the same non-empty semantic set is observed twice, one time
  unit apart, with cooldown 5. The first observation comes 4.5 time units after the
  last announcement and is held back by the cooldown alone; the second comes 5.5 time
  units after it and is committed, writing all three fields.
\<close>

theorem cooldown_suppression_counterexample:
  "snd dog_summary \<noteq> {} \<and> 2011 / 2 - 2009 / 2 = (1::rat) \<and> TTS_ANNOUNCEMENT_COOLDOWN = 5 \<and>
   announcement_step example_state dog_summary (2009 / 2) = (example_state, fst dog_summary) \<and>
   fst (announcement_step (fst (announcement_step example_state dog_summary (2009 / 2)))
          dog_summary (2011 / 2)) =
     example_state\<lparr>last_generated_speech_text := ''to your left, there's a dog.'',
                    last_semantic_summary_set := {(''dog'', ''left'')},
                    last_announcement_text_generation_time := 2011 / 2\<rparr> \<and>
   last_announcement_text_generation_time
     (fst (announcement_step (fst (announcement_step example_state dog_summary (2009 / 2)))
             dog_summary (2011 / 2))) \<noteq>
   last_announcement_text_generation_time
     (fst (announcement_step example_state dog_summary (2009 / 2)))"
  by (simp add: example_state_def dog_summary_def announcement_step_def announce_def commits_def
      make_new_announcement_def speech_for_this_response_def TTS_ANNOUNCEMENT_COOLDOWN_def)

text \<open>
  Claim C3, amended. Of two observations of the same non-empty semantic set one time
  unit apart, the second writes nothing and commits nothing provided the first was
  committed or called for no new announcement (it was not held back by the cooldown
  alone). A summary with a semantic set different from the last announced one, more
  than 5 time units after the last announcement, is committed and writes all three
  fields. In general a commit happens exactly when a new announcement is called for and
  \<open>now - last_spoken_time > cooldown\<close>, and a call that does not commit leaves the state
  as it was. Every text the summary builder returns is a summary in the sense used
  here.
\<close>

theorem cooldown_suppression:
  "(real_summary t1 \<and> real_summary t2 \<and> S \<noteq> {} \<and>
    (commits st (Some t1) S now \<or> \<not> make_new_announcement st (Some t1) S) \<longrightarrow>
      (let st1 = fst (announcement_step st (Some t1, S) now)
       in \<not> commits st1 (Some t2) S (now + 1) \<and>
          announcement_step st1 (Some t2, S) (now + 1) = (st1, Some t2))) \<and>
   (real_summary t \<and> S' \<noteq> last_semantic_summary_set st \<and>
    now - last_announcement_text_generation_time st > 5 \<longrightarrow>
      commits st (Some t) S' now \<and>
      announcement_step st (Some t, S') now =
        (st\<lparr>last_generated_speech_text := t, last_semantic_summary_set := S',
            last_announcement_text_generation_time := now\<rparr>, Some t)) \<and>
   (make_new_announcement st (Some text) current \<and>
    now - last_announcement_text_generation_time st > TTS_ANNOUNCEMENT_COOLDOWN \<longrightarrow>
      commits st (Some text) current now \<and>
      announce st (Some text) current now =
        st\<lparr>last_generated_speech_text := text,
           last_semantic_summary_set := (if text = ''Scene clear.'' then {} else current),
           last_announcement_text_generation_time := now\<rparr>) \<and>
   (\<not> (make_new_announcement st speech current \<and>
       now - last_announcement_text_generation_time st > TTS_ANNOUNCEMENT_COOLDOWN) \<longrightarrow>
      \<not> commits st speech current now \<and> announce st speech current now = st) \<and>
   (fst (announcement_step st (generated, current) now) \<noteq> st \<longrightarrow>
      make_new_announcement st (speech_for_this_response st generated) current \<and>
      now - last_announcement_text_generation_time st > TTS_ANNOUNCEMENT_COOLDOWN) \<and>
   (generate_speech_summary_from_detections_strings ds = Inr (Some built, observed) \<longrightarrow>
      real_summary built)"
proof (intro conjI impI)
  assume h: "real_summary t1 \<and> real_summary t2 \<and> S \<noteq> {} \<and>
    (commits st (Some t1) S now \<or> \<not> make_new_announcement st (Some t1) S)"
  define st1 where "st1 = fst (announcement_step st (Some t1, S) now)"
  have sp1: "speech_for_this_response st (Some t1) = Some t1"
    using h by (simp add: speech_for_this_response_def real_summary_def)
  have st1: "st1 = announce st (Some t1) S now"
    by (simp add: st1_def announcement_step_eq sp1)
  have nc: "\<not> commits st1 (Some t2) S (now + 1)"
  proof (cases "commits st (Some t1) S now")
    case True
    then have "last_announcement_text_generation_time st1 = now"
      by (simp add: st1 announce_commit)
    then show ?thesis by (simp add: commits_def TTS_ANNOUNCEMENT_COOLDOWN_def)
  next
    case False
    with h have nm: "\<not> make_new_announcement st (Some t1) S" by blast
    from False have "st1 = st" by (simp add: st1 announce_unchanged)
    moreover from nm h have "\<not> make_new_announcement st (Some t2) S"
      by (simp add: make_new_announcement_def real_summary_def)
    ultimately show ?thesis by (simp add: commits_def)
  qed
  have sp2: "speech_for_this_response st1 (Some t2) = Some t2"
    using h by (simp add: speech_for_this_response_def real_summary_def)
  from nc sp2 have "announcement_step st1 (Some t2, S) (now + 1) = (st1, Some t2)"
    by (simp add: announcement_step_eq announce_unchanged)
  with nc show "let st1 = fst (announcement_step st (Some t1, S) now)
       in \<not> commits st1 (Some t2) S (now + 1) \<and>
          announcement_step st1 (Some t2, S) (now + 1) = (st1, Some t2)"
    by (simp add: st1_def Let_def)
next
  assume h: "real_summary t \<and> S' \<noteq> last_semantic_summary_set st \<and>
    now - last_announcement_text_generation_time st > 5"
  then have c: "commits st (Some t) S' now"
    by (simp add: commits_def make_new_announcement_def real_summary_def TTS_ANNOUNCEMENT_COOLDOWN_def)
  have sp: "speech_for_this_response st (Some t) = Some t"
    using h by (simp add: speech_for_this_response_def real_summary_def)
  show "commits st (Some t) S' now" by (rule c)
  show "announcement_step st (Some t, S') now =
        (st\<lparr>last_generated_speech_text := t, last_semantic_summary_set := S',
            last_announcement_text_generation_time := now\<rparr>, Some t)"
    using h by (simp add: announcement_step_eq sp announce_commit[OF c] real_summary_def)
next
  assume "make_new_announcement st (Some text) current \<and>
    now - last_announcement_text_generation_time st > TTS_ANNOUNCEMENT_COOLDOWN"
  then show c: "commits st (Some text) current now" by (simp add: commits_def)
  then show "announce st (Some text) current now =
        st\<lparr>last_generated_speech_text := text,
           last_semantic_summary_set := (if text = ''Scene clear.'' then {} else current),
           last_announcement_text_generation_time := now\<rparr>"
    by (rule announce_commit)
next
  assume "\<not> (make_new_announcement st speech current \<and>
       now - last_announcement_text_generation_time st > TTS_ANNOUNCEMENT_COOLDOWN)"
  then show n: "\<not> commits st speech current now" by (simp add: commits_def)
  then show "announce st speech current now = st" by (rule announce_unchanged)
next
  assume "fst (announcement_step st (generated, current) now) \<noteq> st"
  then have "commits st (speech_for_this_response st generated) current now"
    using announce_unchanged[of st "speech_for_this_response st generated" current now]
    by (auto simp: announcement_step_eq)
  then show "make_new_announcement st (speech_for_this_response st generated) current"
    and "now - last_announcement_text_generation_time st > TTS_ANNOUNCEMENT_COOLDOWN"
    by (simp_all add: commits_def)
next
  assume "generate_speech_summary_from_detections_strings ds = Inr (Some built, observed)"
  then show "real_summary built" by (rule summary_is_real)
qed

theorem cooldown_suppression_witness:
  "generate_speech_summary_from_detections_strings [''cat (front) [0.90]''] =
     Inr (Some ''in front of you, there's a cat.'', {(''cat'', ''front'')}) \<and>
   real_summary ''in front of you, there's a cat.'' \<and>
   commits idle_state (Some ''in front of you, there's a cat.'') {(''cat'', ''front'')} 1000 \<and>
   fst (announcement_step idle_state (Some ''in front of you, there's a cat.'',
          {(''cat'', ''front'')}) 1000) = example_state \<and>
   \<not> commits example_state (Some ''in front of you, there's a cat.'') {(''cat'', ''front'')}
       (1000 + 1) \<and>
   announcement_step example_state
     (Some ''in front of you, there's a cat.'', {(''cat'', ''front'')}) (1000 + 1) =
     (example_state, Some ''in front of you, there's a cat.'') \<and>
   \<not> make_new_announcement example_state (Some ''in front of you, there's a cat.'')
       {(''cat'', ''front'')} \<and>
   announcement_step
     (fst (announcement_step example_state
             (Some ''in front of you, there's a cat.'', {(''cat'', ''front'')}) 1010))
     (Some ''in front of you, there's a cat.'', {(''cat'', ''front'')}) (1010 + 1) =
     (fst (announcement_step example_state
             (Some ''in front of you, there's a cat.'', {(''cat'', ''front'')}) 1010),
      Some ''in front of you, there's a cat.'') \<and>
   {(''dog'', ''left'')} \<noteq> last_semantic_summary_set example_state \<and>
   1006 - last_announcement_text_generation_time example_state > 5 \<and>
   commits example_state (Some ''to your left, there's a dog.'') {(''dog'', ''left'')} 1006 \<and>
   announcement_step example_state (Some ''to your left, there's a dog.'', {(''dog'', ''left'')})
     1006 =
     (example_state\<lparr>last_generated_speech_text := ''to your left, there's a dog.'',
                     last_semantic_summary_set := {(''dog'', ''left'')},
                     last_announcement_text_generation_time := 1006\<rparr>,
      Some ''to your left, there's a dog.'')"
proof -
  have gen: "generate_speech_summary_from_detections_strings [''cat (front) [0.90]''] =
     Inr (Some ''in front of you, there's a cat.'', {(''cat'', ''front'')})"
    by code_simp
  have cat: "real_summary ''in front of you, there's a cat.''"
    using gen cooldown_suppression[where ds = "[''cat (front) [0.90]'']"
        and built = "''in front of you, there's a cat.''"
        and observed = "{(''cat'', ''front'')}"]
    by blast
  have a: "real_summary ''in front of you, there's a cat.'' \<and>
           real_summary ''to your left, there's a dog.'' \<and>
           {(''cat'', ''front'')} \<noteq> ({} :: semantic_set)"
    using cat by (simp add: real_summary_def)
  have b: "commits idle_state (Some ''in front of you, there's a cat.'') {(''cat'', ''front'')} 1000"
    by (simp add: commits_def make_new_announcement_def idle_state_def
        TTS_ANNOUNCEMENT_COOLDOWN_def)
  have c: "fst (announcement_step idle_state (Some ''in front of you, there's a cat.'',
             {(''cat'', ''front'')}) 1000) = example_state"
    by (simp add: idle_state_def example_state_def announcement_step_def announce_def commits_def
        make_new_announcement_def speech_for_this_response_def TTS_ANNOUNCEMENT_COOLDOWN_def)
  have d: "{(''dog'', ''left'')} \<noteq> last_semantic_summary_set example_state \<and>
           1006 - last_announcement_text_generation_time example_state > 5"
    by (simp add: example_state_def)
  note t1 = cooldown_suppression[where ?t1.0 = "''in front of you, there's a cat.''"
      and ?t2.0 = "''in front of you, there's a cat.''" and S = "{(''cat'', ''front'')}"
      and st = idle_state and now = 1000]
  note t2 = cooldown_suppression[where t = "''to your left, there's a dog.''"
      and S' = "{(''dog'', ''left'')}" and st = example_state and now = 1006]
  have e: "\<not> commits example_state (Some ''in front of you, there's a cat.'')
               {(''cat'', ''front'')} (1000 + 1) \<and>
           announcement_step example_state
             (Some ''in front of you, there's a cat.'', {(''cat'', ''front'')}) (1000 + 1) =
             (example_state, Some ''in front of you, there's a cat.'')"
    using a b t1 unfolding Let_def c by blast
  have f: "commits example_state (Some ''to your left, there's a dog.'') {(''dog'', ''left'')} 1006 \<and>
           announcement_step example_state
             (Some ''to your left, there's a dog.'', {(''dog'', ''left'')}) 1006 =
             (example_state\<lparr>last_generated_speech_text := ''to your left, there's a dog.'',
                             last_semantic_summary_set := {(''dog'', ''left'')},
                             last_announcement_text_generation_time := 1006\<rparr>,
              Some ''to your left, there's a dog.'')"
    using a d t2 by blast
  have g: "\<not> make_new_announcement example_state (Some ''in front of you, there's a cat.'')
               {(''cat'', ''front'')}"
    by (simp add: make_new_announcement_def example_state_def)
  note t3 = cooldown_suppression[where ?t1.0 = "''in front of you, there's a cat.''"
      and ?t2.0 = "''in front of you, there's a cat.''" and S = "{(''cat'', ''front'')}"
      and st = example_state and now = 1010]
  have h: "announcement_step
     (fst (announcement_step example_state
             (Some ''in front of you, there's a cat.'', {(''cat'', ''front'')}) 1010))
     (Some ''in front of you, there's a cat.'', {(''cat'', ''front'')}) (1010 + 1) =
     (fst (announcement_step example_state
             (Some ''in front of you, there's a cat.'', {(''cat'', ''front'')}) 1010),
      Some ''in front of you, there's a cat.'')"
    using a g t3 unfolding Let_def by blast
  from gen a b c d e f g h show ?thesis by blast
qed

lemma summary_of_markers:
  "generate_speech_summary_from_detections_strings [] = Inr (None, {})"
  "generate_speech_summary_from_detections_strings [''ONNX model not loaded.''] = Inr (None, {})"
  "generate_speech_summary_from_detections_strings [''Infer Error.''] = Inr (None, {})"
  "generate_speech_summary_from_detections_strings [''No objects (Conf:0.37,NMS:0.35).''] = Inr (None, {})"
  by code_simp+

lemma perform_no_detections:
  assumes "snd (perform_inference_and_postprocess st shape det w h) = []"
  shows "fst (perform_inference_and_postprocess st shape det w h) \<in>
           {[], [''ONNX model not loaded.''], [''Infer Error.''],
            [''No objects (Conf:0.37,NMS:0.35).'']}"
  using assms unfolding perform_inference_and_postprocess_def
  by (auto split: option.splits sum.splits prod.splits if_splits)

lemma summary_no_detections:
  assumes "snd (perform_inference_and_postprocess st shape det w h) = []"
  shows "generate_speech_summary_from_detections_strings
           (fst (perform_inference_and_postprocess st shape det w h)) = Inr (None, {})"
  using perform_no_detections[OF assms] summary_of_markers by auto

lemma perform_detector_raised:
  "snd (perform_inference_and_postprocess st shape None w h) = []"
  unfolding perform_inference_and_postprocess_def
  by (auto split: option.splits sum.splits prod.splits if_splits)

lemma route_accepted:
  assumes "accepted st req" and "frame_shape req = Some (h, w)"
    and "generate_speech_summary_from_detections_strings
           (fst (perform_inference_and_postprocess st (h, w) (detector_output req) w h)) = Inr summary"
  shows "fst (process_image_route st req now) = fst (announcement_step st summary now)"
    and "\<not> (lower (draw_boxes req) = ''true'' \<and> imencode_ok req) \<Longrightarrow>
         snd (process_image_route st req now) =
           Detections (fst (perform_inference_and_postprocess st (h, w) (detector_output req) w h))
             (snd (perform_inference_and_postprocess st (h, w) (detector_output req) w h))
             (snd (announcement_step st summary now))"
  using assms unfolding process_image_route_def accepted_def
  by (auto split: prod.splits)

lemma route_rejected:
  assumes "detection_active st"
    and "\<not> has_image req \<or> filename req = [] \<or> frame_shape req = None \<or> \<not> onnx_session st"
  shows "fst (process_image_route st req now) = st"
    and "\<exists>code msg. snd (process_image_route st req now) = Rejected code msg"
  using assms unfolding process_image_route_def
  by (auto split: option.splits prod.splits)

lemma step_empty_frame:
  "announcement_step st (None, {}) now =
     (if announce_scene_clear st \<and> last_semantic_summary_set st \<noteq> {}
      then (if now - last_announcement_text_generation_time st > TTS_ANNOUNCEMENT_COOLDOWN
            then st\<lparr>last_generated_speech_text := ''Scene clear.'',
                    last_semantic_summary_set := {},
                    last_announcement_text_generation_time := now\<rparr>
            else st, Some ''Scene clear.'')
      else (st, None))"
  by (simp add: announcement_step_eq speech_for_this_response_def announce_def commits_def
      make_new_announcement_def)

lemma decode_skips_short_rows:
  "decode_proposals t n (filter (\<lambda>p. \<not> length p < 4 + n) props) = decode_proposals t n props"
  by (induction props) (simp_all add: Let_def)

lemma perform_skips_short_rows:
  "perform_inference_and_postprocess st shape
     (Some (filter (\<lambda>p. \<not> length p < 4 + length (class_names st)) rows)) w h =
   perform_inference_and_postprocess st shape (Some rows) w h"
proof -
  have "decode_suppress_remap t_conf t_iou (class_names st) scale dw dh w h
          (filter (\<lambda>p. \<not> length p < 4 + length (class_names st)) rows) =
        decode_suppress_remap t_conf t_iou (class_names st) scale dw dh w h rows"
    for t_conf t_iou scale dw dh
    by (simp add: decode_suppress_remap_def decode_skips_short_rows)
  then show ?thesis
    by (simp add: perform_inference_and_postprocess_def split: option.splits)
qed

text \<open>
  Claim C4. With scene-clear announcements on and a non-empty last semantic set, a
  frame without detections yields the text \<open>Scene clear.\<close>; when it is committed the
  last semantic set becomes empty, and an empty frame at any later time announces
  nothing and leaves the state as it is. A frame of the route whose detection list is
  empty is such a frame.
\<close>

theorem scene_clear_transition:
  "(announce_scene_clear st \<and> last_semantic_summary_set st \<noteq> {} \<longrightarrow>
      snd (announcement_step st (None, {}) now) = Some ''Scene clear.'' \<and>
      (now - last_announcement_text_generation_time st > TTS_ANNOUNCEMENT_COOLDOWN \<longrightarrow>
         fst (announcement_step st (None, {}) now) =
           st\<lparr>last_generated_speech_text := ''Scene clear.'', last_semantic_summary_set := {},
              last_announcement_text_generation_time := now\<rparr> \<and>
         announcement_step (fst (announcement_step st (None, {}) now)) (None, {}) later =
           (fst (announcement_step st (None, {}) now), None))) \<and>
   (accepted st req \<and> frame_shape req = Some (h, w) \<and>
    snd (perform_inference_and_postprocess st (h, w) (detector_output req) w h) = [] \<longrightarrow>
      generate_speech_summary_from_detections_strings
        (fst (perform_inference_and_postprocess st (h, w) (detector_output req) w h)) =
        Inr (None, {}) \<and>
      fst (process_image_route st req now) = fst (announcement_step st (None, {}) now) \<and>
      (\<not> (lower (draw_boxes req) = ''true'' \<and> imencode_ok req) \<longrightarrow>
         speech_output (snd (process_image_route st req now)) =
           snd (announcement_step st (None, {}) now)))"
proof (intro conjI impI)
  assume h: "announce_scene_clear st \<and> last_semantic_summary_set st \<noteq> {}"
  then show "snd (announcement_step st (None, {}) now) = Some ''Scene clear.''"
    by (simp add: step_empty_frame)
  assume t: "now - last_announcement_text_generation_time st > TTS_ANNOUNCEMENT_COOLDOWN"
  with h show s1: "fst (announcement_step st (None, {}) now) =
           st\<lparr>last_generated_speech_text := ''Scene clear.'', last_semantic_summary_set := {},
              last_announcement_text_generation_time := now\<rparr>"
    by (simp add: step_empty_frame)
  show "announcement_step (fst (announcement_step st (None, {}) now)) (None, {}) later =
           (fst (announcement_step st (None, {}) now), None)"
    unfolding s1 by (simp add: step_empty_frame)
next
  assume h: "accepted st req \<and> frame_shape req = Some (h, w) \<and>
    snd (perform_inference_and_postprocess st (h, w) (detector_output req) w h) = []"
  then show g: "generate_speech_summary_from_detections_strings
        (fst (perform_inference_and_postprocess st (h, w) (detector_output req) w h)) =
        Inr (None, {})"
    by (simp add: summary_no_detections)
  from h g show "fst (process_image_route st req now) = fst (announcement_step st (None, {}) now)"
    using route_accepted(1)[of st req h w "(None, {})" now] by simp
  assume "\<not> (lower (draw_boxes req) = ''true'' \<and> imencode_ok req)"
  with h g show "speech_output (snd (process_image_route st req now)) =
           snd (announcement_step st (None, {}) now)"
    using route_accepted(2)[of st req h w "(None, {})" now] by simp
qed

theorem scene_clear_transition_witness:
  "announce_scene_clear example_state \<and>
   last_semantic_summary_set example_state = {(''cat'', ''front'')} \<and>
   accepted example_state empty_request \<and>
   snd (perform_inference_and_postprocess example_state (480, 640)
          (detector_output empty_request) 640 480) = [] \<and>
   speech_output (snd (process_image_route example_state empty_request 1010)) =
     Some ''Scene clear.'' \<and>
   fst (process_image_route example_state empty_request 1010) =
     example_state\<lparr>last_generated_speech_text := ''Scene clear.'',
                    last_semantic_summary_set := {},
                    last_announcement_text_generation_time := 1010\<rparr> \<and>
   announcement_step (fst (announcement_step example_state (None, {}) 1010)) (None, {}) 1011 =
     (fst (announcement_step example_state (None, {}) 1010), None) \<and>
   announcement_step (fst (announcement_step example_state (None, {}) 1010)) (None, {}) 1020 =
     (fst (announcement_step example_state (None, {}) 1010), None)"
proof -
  have a: "announce_scene_clear example_state \<and>
           last_semantic_summary_set example_state = {(''cat'', ''front'')} \<and>
           last_semantic_summary_set example_state \<noteq> {} \<and>
           1010 - last_announcement_text_generation_time example_state > TTS_ANNOUNCEMENT_COOLDOWN"
    by (simp add: example_state_def TTS_ANNOUNCEMENT_COOLDOWN_def)
  have b: "accepted example_state empty_request \<and> frame_shape empty_request = Some (480, 640) \<and>
           \<not> (lower (draw_boxes empty_request) = ''true'' \<and> imencode_ok empty_request)"
    by (simp add: accepted_def example_state_def empty_request_def lower_def)
  have c: "snd (perform_inference_and_postprocess example_state (480, 640)
                  (detector_output empty_request) 640 480) = []"
    unfolding example_state_def empty_request_def by code_simp
  note t1 = scene_clear_transition[where st = example_state and req = empty_request
      and now = 1010 and later = 1011 and h = 480 and w = 640]
  note t2 = scene_clear_transition[where st = example_state and req = empty_request
      and now = 1010 and later = 1020 and h = 480 and w = 640]
  have r: "fst (process_image_route example_state empty_request 1010) =
           fst (announcement_step example_state (None, {}) 1010)"
    using a b c t1 by blast
  have s: "speech_output (snd (process_image_route example_state empty_request 1010)) =
           snd (announcement_step example_state (None, {}) 1010)"
    using a b c t1 by blast
  have e: "snd (announcement_step example_state (None, {}) 1010) = Some ''Scene clear.'' \<and>
           fst (announcement_step example_state (None, {}) 1010) =
             example_state\<lparr>last_generated_speech_text := ''Scene clear.'',
                            last_semantic_summary_set := {},
                            last_announcement_text_generation_time := 1010\<rparr>"
    using a t1 by blast
  have l1: "announcement_step (fst (announcement_step example_state (None, {}) 1010)) (None, {})
              1011 = (fst (announcement_step example_state (None, {}) 1010), None)"
    using a t1 by blast
  have l2: "announcement_step (fst (announcement_step example_state (None, {}) 1010)) (None, {})
              1020 = (fst (announcement_step example_state (None, {}) 1010), None)"
    using a t2 by blast
  from a b c l1 l2 show ?thesis
    unfolding r s by (intro conjI) (simp_all only: e)
qed

section \<open>The suppressor\<close>

lemma set_greedy_keep: "set (greedy_keep ov xs) \<subseteq> set xs"
  by (induction ov xs rule: greedy_keep.induct) auto

lemma sorted_wrt_greedy_keep: "sorted_wrt R xs \<Longrightarrow> sorted_wrt R (greedy_keep ov xs)"
proof (induction ov xs rule: greedy_keep.induct)
  case (1 ov)
  then show ?case by simp
next
  case (2 ov x xs)
  from "2.prems" have "sorted_wrt R (filter (\<lambda>y. \<not> ov x y) xs)"
    by (simp add: sorted_wrt_filter)
  then have "sorted_wrt R (greedy_keep ov (filter (\<lambda>y. \<not> ov x y) xs))"
    by (rule "2.IH")
  moreover have "\<forall>y\<in>set (greedy_keep ov (filter (\<lambda>y. \<not> ov x y) xs)). R x y"
    using "2.prems" set_greedy_keep[of ov "filter (\<lambda>y. \<not> ov x y) xs"] by auto
  ultimately show ?case by simp
qed

lemma greedy_keep_no_overlap: "sorted_wrt (\<lambda>x y. \<not> ov x y) (greedy_keep ov xs)"
proof (induction ov xs rule: greedy_keep.induct)
  case (1 ov)
  then show ?case by simp
next
  case (2 ov x xs)
  have "\<forall>y\<in>set (greedy_keep ov (filter (\<lambda>y. \<not> ov x y) xs)). \<not> ov x y"
    using set_greedy_keep[of ov "filter (\<lambda>y. \<not> ov x y) xs"] by auto
  with "2.IH" show ?case
    unfolding greedy_keep.simps sorted_wrt.simps by blast
qed

lemma greedy_keep_fixed: "sorted_wrt (\<lambda>x y. \<not> ov x y) xs \<Longrightarrow> greedy_keep ov xs = xs"
proof (induction xs)
  case Nil
  then show ?case by simp
next
  case (Cons x xs)
  then have "filter (\<lambda>y. \<not> ov x y) xs = xs" by (simp add: filter_id_conv)
  with Cons show ?case by simp
qed

lemma greedy_keep_map:
  "greedy_keep ov (map h xs) = map h (greedy_keep (\<lambda>x y. ov (h x) (h y)) xs)"
proof (induction "\<lambda>x y. ov (h x) (h y)" xs rule: greedy_keep.induct)
  case 1
  then show ?case by simp
next
  case (2 x xs)
  then show ?case by (simp add: filter_map comp_def)
qed

lemma greedy_keep_cong:
  "(\<And>x y. x \<in> set xs \<Longrightarrow> y \<in> set xs \<Longrightarrow> ov x y = ov' x y) \<Longrightarrow>
   greedy_keep ov xs = greedy_keep ov' xs"
proof (induction ov xs rule: greedy_keep.induct)
  case (1 ov)
  then show ?case by simp
next
  case (2 ov x xs)
  have f: "filter (\<lambda>y. \<not> ov x y) xs = filter (\<lambda>y. \<not> ov' x y) xs"
    using "2.prems" by (intro filter_cong) auto
  have "greedy_keep ov (filter (\<lambda>y. \<not> ov x y) xs) = greedy_keep ov' (filter (\<lambda>y. \<not> ov x y) xs)"
    using "2.prems" by (intro "2.IH") auto
  with f show ?case by simp
qed

lemma greedy_keep_prefix:
  "(\<forall>p\<in>set ps. P p) \<Longrightarrow> (\<forall>q\<in>set qs. \<not> P q) \<Longrightarrow>
   filter P (greedy_keep ov (ps @ qs)) = greedy_keep ov ps"
proof (induction ov ps arbitrary: qs rule: greedy_keep.induct)
  case (1 ov)
  have "set (greedy_keep ov qs) \<subseteq> set qs" by (rule set_greedy_keep)
  with 1 show ?case by (auto simp: filter_empty_conv)
next
  case (2 ov x xs)
  have "filter P (greedy_keep ov (filter (\<lambda>y. \<not> ov x y) xs @ filter (\<lambda>y. \<not> ov x y) qs)) =
        greedy_keep ov (filter (\<lambda>y. \<not> ov x y) xs)"
    using "2.prems" by (intro "2.IH") auto
  with "2.prems" show ?case by simp
qed

lemma NMSBoxes_members:
  assumes "i \<in> set (NMSBoxes bboxes scores s t)"
  shows "i < length bboxes" and "i < length scores" and "float_less (Finite s) (scores ! i)"
proof -
  from assms have "i \<in> set (filter (\<lambda>i. float_less (Finite s) (scores ! i))
                            [0..<min (length bboxes) (length scores)])"
    unfolding NMSBoxes_def using set_greedy_keep by fastforce
  then show "i < length bboxes" and "i < length scores"
    and "float_less (Finite s) (scores ! i)" by auto
qed

lemma NMSBoxes_sorted:
  "sorted (map (\<lambda>i. descending_key (scores ! i)) (NMSBoxes bboxes scores s t))"
proof -
  let ?f = "\<lambda>i. descending_key (scores ! i)"
  let ?xs = "sort_key ?f (filter (\<lambda>i. float_less (Finite s) (scores ! i))
                           [0..<min (length bboxes) (length scores)])"
  have "sorted (map ?f ?xs)" by (rule sorted_sort_key)
  then have "sorted_wrt (\<lambda>x y. ?f x \<le> ?f y) ?xs" by (simp only: sorted_map)
  then have "sorted_wrt (\<lambda>x y. ?f x \<le> ?f y)
               (greedy_keep (\<lambda>i j. iou (bboxes ! i) (bboxes ! j) > t) ?xs)"
    by (rule sorted_wrt_greedy_keep)
  then show ?thesis by (simp only: sorted_map NMSBoxes_def)
qed

lemma NMSBoxes_no_overlap:
  "sorted_wrt (\<lambda>i j. \<not> iou (bboxes ! i) (bboxes ! j) > t) (NMSBoxes bboxes scores s t)"
  unfolding NMSBoxes_def by (rule greedy_keep_no_overlap)

lemma NMSBoxes_idem:
  "NMSBoxes (map ((!) bboxes) (NMSBoxes bboxes scores s t))
            (map ((!) scores) (NMSBoxes bboxes scores s t)) s t =
   [0..<length (NMSBoxes bboxes scores s t)]"
proof -
  define K where "K = NMSBoxes bboxes scores s t"
  define B where "B = map ((!) bboxes) K"
  define S where "S = map ((!) scores) K"
  have len: "min (length B) (length S) = length K" by (simp add: B_def S_def)
  have above: "\<forall>j\<in>set [0..<length K]. float_less (Finite s) (S ! j)"
    using NMSBoxes_members(3)[of _ bboxes scores s t] by (simp add: S_def K_def)
  have f: "filter (\<lambda>j. float_less (Finite s) (S ! j)) [0..<length K] = [0..<length K]"
    using above by (simp add: filter_id_conv)
  have "map (\<lambda>j. descending_key (S ! j)) [0..<length K] =
        map (\<lambda>j. descending_key (scores ! (K ! j))) [0..<length K]"
    by (simp add: S_def)
  also have "\<dots> = map (\<lambda>i. descending_key (scores ! i)) (map ((!) K) [0..<length K])"
    by (simp add: comp_def)
  also have "\<dots> = map (\<lambda>i. descending_key (scores ! i)) K" by (simp add: map_nth)
  finally have "sorted (map (\<lambda>j. descending_key (S ! j)) [0..<length K])"
    using NMSBoxes_sorted[of scores bboxes s t] by (simp add: K_def)
  then have so: "sort_key (\<lambda>j. descending_key (S ! j)) [0..<length K] = [0..<length K]"
    by (rule sort_key_id_if_sorted)
  have "sorted_wrt (\<lambda>i j. \<not> iou (B ! i) (B ! j) > t) [0..<length K]"
    using NMSBoxes_no_overlap[of t bboxes scores s]
    by (simp add: sorted_wrt_iff_nth_less B_def K_def)
  then have "greedy_keep (\<lambda>i j. iou (B ! i) (B ! j) > t) [0..<length K] = [0..<length K]"
    by (rule greedy_keep_fixed)
  then have "NMSBoxes B S s t = [0..<length K]"
    by (simp add: NMSBoxes_def len f so)
  then show ?thesis by (simp add: B_def S_def K_def)
qed

lemma iou_commute: "iou a b = iou b a"
  by (cases a; cases b) (simp add: iou_def Let_def min.commute max.commute add.commute)

text \<open>
  Claim C8. Running the suppressor again on the boxes it kept, with the same
  thresholds, keeps every one of them: the second run returns all their positions.
  The reason is that no two kept boxes overlap above the IoU threshold; every kept
  index is a position of the input whose score exceeds the score threshold.
\<close>

theorem nms_idempotent:
  "NMSBoxes (map ((!) bboxes) (NMSBoxes bboxes scores s t))
            (map ((!) scores) (NMSBoxes bboxes scores s t)) s t =
     [0..<length (NMSBoxes bboxes scores s t)] \<and>
   (i < length (NMSBoxes bboxes scores s t) \<and> j < length (NMSBoxes bboxes scores s t) \<and>
    i \<noteq> j \<longrightarrow>
      \<not> iou (bboxes ! (NMSBoxes bboxes scores s t ! i))
             (bboxes ! (NMSBoxes bboxes scores s t ! j)) > t) \<and>
   (\<forall>k\<in>set (NMSBoxes bboxes scores s t).
      k < length bboxes \<and> k < length scores \<and> float_less (Finite s) (scores ! k))"
proof (intro conjI impI ballI)
  show "NMSBoxes (map ((!) bboxes) (NMSBoxes bboxes scores s t))
            (map ((!) scores) (NMSBoxes bboxes scores s t)) s t =
     [0..<length (NMSBoxes bboxes scores s t)]"
    by (rule NMSBoxes_idem)
next
  let ?K = "NMSBoxes bboxes scores s t"
  assume h: "i < length ?K \<and> j < length ?K \<and> i \<noteq> j"
  have no: "\<And>a b. a < b \<Longrightarrow> b < length ?K \<Longrightarrow> \<not> iou (bboxes ! (?K ! a)) (bboxes ! (?K ! b)) > t"
    using NMSBoxes_no_overlap[of t bboxes scores s] by (simp add: sorted_wrt_iff_nth_less)
  show "\<not> iou (bboxes ! (?K ! i)) (bboxes ! (?K ! j)) > t"
  proof (cases "i < j")
    case True
    with h no show ?thesis by blast
  next
    case False
    with h have "j < i" by simp
    with h no have "\<not> iou (bboxes ! (?K ! j)) (bboxes ! (?K ! i)) > t" by blast
    then show ?thesis by (simp add: iou_commute)
  qed
next
  fix k assume "k \<in> set (NMSBoxes bboxes scores s t)"
  then show "k < length bboxes" "k < length scores" "float_less (Finite s) (scores ! k)"
    by (rule NMSBoxes_members)+
qed

theorem nms_idempotent_witness:
  "NMSBoxes three_rects three_scores CONF_THRESHOLD NMS_THRESHOLD = [1, 2] \<and>
   NMSBoxes (map ((!) three_rects) [1, 2]) (map ((!) three_scores) [1, 2])
     CONF_THRESHOLD NMS_THRESHOLD = [0, 1] \<and>
   \<not> iou (three_rects ! 1) (three_rects ! 2) > NMS_THRESHOLD \<and>
   iou (three_rects ! 1) (three_rects ! 0) > NMS_THRESHOLD"
proof -
  have k: "NMSBoxes three_rects three_scores CONF_THRESHOLD NMS_THRESHOLD = [1, 2]"
    by code_simp
  have o: "iou (three_rects ! 1) (three_rects ! 0) > NMS_THRESHOLD" by code_simp
  have u: "[0..<length [1::nat, 2]] = [0, 1]" by code_simp
  from k o u show ?thesis
    using nms_idempotent[of three_rects three_scores CONF_THRESHOLD NMS_THRESHOLD 0 1]
    by simp
qed

section \<open>Monotonicity in the confidence threshold\<close>

lemma float_less_mono: "t \<le> t' \<Longrightarrow> float_less (Finite t') x \<Longrightarrow> float_less (Finite t) x"
  by (cases x) auto

lemma descending_key_le:
  "descending_key a \<le> descending_key b \<Longrightarrow> float_less (Finite t) b \<Longrightarrow>
   float_less (Finite t) a"
  by (cases a; cases b) auto

lemma decode_proposals_mono:
  "t \<le> t' \<Longrightarrow>
   decode_proposals t' n props =
     (case decode_proposals t n props of
        Inl e \<Rightarrow> Inl e
      | Inr cs \<Rightarrow> Inr (filter (\<lambda>c. float_less (Finite t') (confidence c)) cs))"
  by (induction props) (auto simp: Let_def split: sum.splits dest: float_less_mono)

lemma insort_key_cong_set:
  "f x = g x \<Longrightarrow> (\<forall>y\<in>set ys. f y = g y) \<Longrightarrow> insort_key f x ys = insort_key g x ys"
  by (induction ys) auto

lemma sort_key_cong_set: "(\<forall>x\<in>set xs. f x = g x) \<Longrightarrow> sort_key f xs = sort_key g xs"
proof (induction xs)
  case Nil
  then show ?case by simp
next
  case (Cons x xs)
  then have "sort_key f xs = sort_key g xs" by simp
  moreover have "insort_key f x (sort_key g xs) = insort_key g x (sort_key g xs)"
    using Cons.prems by (intro insort_key_cong_set) auto
  ultimately show ?case by simp
qed

lemma map_insort_key: "map h (insort_key (\<lambda>x. k (h x)) x ys) = insort_key k (h x) (map h ys)"
  by (induction ys) auto

lemma map_sort_key: "map h (sort_key (\<lambda>x. k (h x)) xs) = sort_key k (map h xs)"
  by (induction xs) (auto simp: map_insort_key)

lemma kept_candidates_eq:
  "kept_candidates t_conf t_iou cands =
     greedy_keep (\<lambda>c d. iou (rect_of c) (rect_of d) > t_iou)
       (sort_key (\<lambda>c. descending_key (confidence c))
          (filter (\<lambda>c. float_less (Finite t_conf) (confidence c)) cands))"
proof -
  let ?h = "(!) cands"
  let ?n = "length cands"
  let ?P = "\<lambda>c. float_less (Finite t_conf) (confidence c)"
  let ?k = "\<lambda>c. descending_key (confidence c)"
  let ?ov = "\<lambda>c d. iou (rect_of c) (rect_of d) > t_iou"
  let ?I = "filter (\<lambda>i. ?P (?h i)) [0..<?n]"
  let ?J = "sort_key (\<lambda>i. ?k (?h i)) ?I"
  have I: "filter (\<lambda>i. float_less (Finite t_conf) (map confidence cands ! i)) [0..<?n] = ?I"
    by (intro filter_cong) auto
  have J: "sort_key (\<lambda>i. descending_key (map confidence cands ! i)) ?I = ?J"
    by (intro sort_key_cong_set) auto
  have sub: "set ?J \<subseteq> {..<?n}" by auto
  have G: "greedy_keep (\<lambda>i j. iou (map rect_of cands ! i) (map rect_of cands ! j) > t_iou) ?J =
           greedy_keep (\<lambda>i j. ?ov (?h i) (?h j)) ?J"
    using sub by (intro greedy_keep_cong) auto
  have N: "NMSBoxes (map rect_of cands) (map confidence cands) t_conf t_iou =
           greedy_keep (\<lambda>i j. ?ov (?h i) (?h j)) ?J"
    by (simp only: NMSBoxes_def length_map min.idem I J G)
  have "map ?h ?I = filter ?P (map ?h [0..<?n])" by (simp add: filter_map comp_def)
  then have mI: "map ?h ?I = filter ?P cands" by (simp add: map_nth)
  have "map ?h (greedy_keep (\<lambda>i j. ?ov (?h i) (?h j)) ?J) = greedy_keep ?ov (map ?h ?J)"
    by (rule greedy_keep_map[symmetric])
  also have "map ?h ?J = sort_key ?k (map ?h ?I)" by (rule map_sort_key)
  finally show ?thesis by (simp only: kept_candidates_def N mI)
qed

lemma sorted_split:
  assumes "sorted (map f xs)" and "\<And>x y. f x \<le> f y \<Longrightarrow> P y \<Longrightarrow> P x"
  shows "xs = filter P xs @ filter (\<lambda>x. \<not> P x) xs"
  using assms(1)
proof (induction xs)
  case Nil
  then show ?case by simp
next
  case (Cons x xs)
  show ?case
  proof (cases "P x")
    case True
    with Cons show ?thesis by simp
  next
    case False
    have "\<forall>y\<in>set xs. \<not> P y"
    proof
      fix y assume "y \<in> set xs"
      with Cons.prems have "f x \<le> f y" by auto
      with False assms(2) show "\<not> P y" by blast
    qed
    then have "filter P xs = []" and "filter (\<lambda>x. \<not> P x) xs = xs"
      by (simp_all add: filter_empty_conv filter_id_conv)
    with False show ?thesis by simp
  qed
qed

lemma kept_candidates_mono:
  assumes "t \<le> t'"
  shows "kept_candidates t' t_iou (filter (\<lambda>c. float_less (Finite t') (confidence c)) cands) =
         filter (\<lambda>c. float_less (Finite t') (confidence c)) (kept_candidates t t_iou cands)"
proof -
  let ?P = "\<lambda>c. float_less (Finite t) (confidence c)"
  let ?P' = "\<lambda>c. float_less (Finite t') (confidence c)"
  let ?k = "\<lambda>c. descending_key (confidence c)"
  let ?ov = "\<lambda>c d. iou (rect_of c) (rect_of d) > t_iou"
  let ?S = "sort_key ?k (filter ?P cands)"
  have ff: "filter ?P' (filter ?P' cands) = filter ?P' (filter ?P cands)"
    using assms by (auto intro!: filter_cong dest: float_less_mono)
  have "sort_key ?k (filter ?P' (filter ?P' cands)) = filter ?P' ?S"
    by (simp only: ff filter_sort)
  then have l: "kept_candidates t' t_iou (filter ?P' cands) = greedy_keep ?ov (filter ?P' ?S)"
    by (simp only: kept_candidates_eq)
  have "sorted (map ?k ?S)" by (rule sorted_sort_key)
  then have split: "?S = filter ?P' ?S @ filter (\<lambda>c. \<not> ?P' c) ?S"
    by (rule sorted_split) (rule descending_key_le)
  have "filter ?P' (greedy_keep ?ov (filter ?P' ?S @ filter (\<lambda>c. \<not> ?P' c) ?S)) =
        greedy_keep ?ov (filter ?P' ?S)"
    by (rule greedy_keep_prefix) auto
  with split have "filter ?P' (greedy_keep ?ov ?S) = greedy_keep ?ov (filter ?P' ?S)" by simp
  with l show ?thesis by (simp only: kept_candidates_eq)
qed

lemma py_int_float_Inr: "py_int_float x = Inr n \<longleftrightarrow> (\<exists>q. x = Finite q \<and> n = py_int q)"
  by (cases x) auto

lemma float_minus_Finite:
  "float_minus a b = Finite q \<longleftrightarrow> (\<exists>x y. a = Finite x \<and> b = Finite y \<and> q = x - y)"
  by (cases a; cases b) (auto simp: float_minus_def)

lemma float_plus_Finite:
  "float_plus a b = Finite q \<longleftrightarrow> (\<exists>x y. a = Finite x \<and> b = Finite y \<and> q = x + y)"
  by (cases a; cases b) auto

lemma float_div_Finite:
  "r \<noteq> 0 \<Longrightarrow> float_div a r = Finite q \<longleftrightarrow> (\<exists>x. a = Finite x \<and> q = x / r)"
  by (cases a) auto

lemma finite_box_Some:
  "finite_box b = Some fb \<longleftrightarrow>
     (\<exists>cx cy w h. b = (Finite cx, Finite cy, Finite w, Finite h) \<and> fb = (cx, cy, w, h))"
  by (cases b rule: finite_box.cases) auto

lemma finite_box_None:
  "finite_box (cx, cy, w, h) = None \<longleftrightarrow>
     \<not> (is_finite cx \<and> is_finite cy \<and> is_finite w \<and> is_finite h)"
  by (cases cx; cases cy; cases w; cases h) auto

lemma cv_box_finite:
  "finite_box (box c) = Some (cx, cy, w, h) \<Longrightarrow>
   cv_box c = Inr (py_int (cx - w / 2), py_int (cy - h / 2), py_int w, py_int h)"
  by (auto simp: finite_box_Some cv_box_def float_minus_def)

lemma cv_box_Inr: "cv_box c = Inr r \<Longrightarrow> \<exists>fb. finite_box (box c) = Some fb"
proof (cases "box c")
  case (fields cx cy w h)
  assume "cv_box c = Inr r"
  then show ?thesis
    unfolding cv_box_def fields
    by (cases cx; cases cy; cases w; cases h)
       (simp_all add: float_minus_def split: if_splits)
qed

lemma cv_boxes_Inr:
  "cv_boxes cs = Inr rs \<Longrightarrow> rs = map rect_of cs \<and> (\<forall>c\<in>set cs. \<exists>fb. finite_box (box c) = Some fb)"
proof (induction cs arbitrary: rs)
  case Nil
  then show ?case by simp
next
  case (Cons c cs)
  from Cons.prems obtain r rs' where r: "cv_box c = Inr r" and rs': "cv_boxes cs = Inr rs'"
    and rs: "rs = r # rs'"
    by (auto split: sum.splits)
  from r have "rect_of c = r" by (simp add: rect_of_def)
  moreover from r have "\<exists>fb. finite_box (box c) = Some fb" by (rule cv_box_Inr)
  ultimately show ?case using Cons.IH[OF rs'] rs by simp
qed

lemma cv_boxes_finite:
  "(\<forall>c\<in>set cs. \<exists>fb. finite_box (box c) = Some fb) \<Longrightarrow> cv_boxes cs = Inr (map rect_of cs)"
proof (induction cs)
  case Nil
  then show ?case by simp
next
  case (Cons c cs)
  then obtain cx cy w h where "finite_box (box c) = Some (cx, cy, w, h)" by fastforce
  then obtain r where r: "cv_box c = Inr r" using cv_box_finite by blast
  then have "rect_of c = r" by (simp add: rect_of_def)
  with r Cons show ?case by simp
qed

lemma remap_float_box_finite:
  assumes "scale \<noteq> 0" and "finite_box b = Some fb"
  shows "remap_float_box scale dw dh W H b = Inr (remap_box scale dw dh W H fb)"
proof -
  from assms(2) obtain cx cy w h where
    b: "b = (Finite cx, Finite cy, Finite w, Finite h)" and fb: "fb = (cx, cy, w, h)"
    by (auto simp: finite_box_Some)
  show ?thesis
    using assms(1) unfolding b fb
    by (simp add: remap_float_box_def remap_box_def float_minus_def Let_def)
qed

lemma emit_one_nth:
  "i < length cands \<Longrightarrow> scale \<noteq> 0 \<Longrightarrow> finite_box (box (cands ! i)) = Some fb \<Longrightarrow>
   emit_one cn scale dw dh W H cands i = Inr (emit_candidate cn scale dw dh W H (cands ! i))"
  by (simp add: emit_one_def emit_candidate_def Let_def remap_float_box_finite
      split: option.splits)

lemma emit_detections_in_range:
  "\<forall>i\<in>set is. i < length cands \<and> (\<exists>fb. finite_box (box (cands ! i)) = Some fb) \<Longrightarrow>
   scale \<noteq> 0 \<Longrightarrow>
   emit_detections cn scale dw dh W H cands is =
     (List.map_filter (emit_candidate cn scale dw dh W H) (map ((!) cands) is), False)"
proof (induction "is")
  case Nil
  then show ?case by (simp add: List.map_filter_simps)
next
  case (Cons i "is")
  then obtain fb where "i < length cands" "finite_box (box (cands ! i)) = Some fb" by auto
  then have "emit_one cn scale dw dh W H cands i =
             Inr (emit_candidate cn scale dw dh W H (cands ! i))"
    using Cons.prems(2) by (intro emit_one_nth)
  with Cons show ?case by (auto simp: List.map_filter_simps split: option.splits)
qed

lemma NMSBoxes_Nil: "NMSBoxes [] scores s t = []"
  by (simp add: NMSBoxes_def)

lemma decode_suppress_remap_eq:
  assumes "scale \<noteq> 0"
  shows "decode_suppress_remap t_conf t_iou cn scale dw dh W H props =
     (case decode_proposals t_conf (length cn) props of
        Inl e \<Rightarrow> Inl e
      | Inr cands \<Rightarrow>
          (case cv_boxes cands of
             Inl e \<Rightarrow> Inl e
           | Inr cv_b \<Rightarrow>
               Inr (NMSBoxes (map rect_of cands) (map confidence cands) t_conf t_iou,
                    List.map_filter (emit_candidate cn scale dw dh W H)
                      (kept_candidates t_conf t_iou cands),
                    False)))"
proof (cases "decode_proposals t_conf (length cn) props")
  case (Inl e)
  then show ?thesis by (simp add: decode_suppress_remap_def)
next
  case (Inr cands)
  show ?thesis
  proof (cases "cv_boxes cands")
    case (Inl e)
    with Inr show ?thesis by (simp add: decode_suppress_remap_def)
  next
    case cv: (Inr cv_b)
    then have cvb: "cv_b = map rect_of cands"
      and fin: "\<forall>c\<in>set cands. \<exists>fb. finite_box (box c) = Some fb"
      using cv_boxes_Inr by blast+
    let ?K = "NMSBoxes (map rect_of cands) (map confidence cands) t_conf t_iou"
    have r: "\<forall>i\<in>set ?K. i < length cands \<and> (\<exists>fb. finite_box (box (cands ! i)) = Some fb)"
      using NMSBoxes_members(1)[of _ "map rect_of cands" "map confidence cands" t_conf t_iou]
        fin by auto
    have e: "emit_detections cn scale dw dh W H cands ?K =
          (List.map_filter (emit_candidate cn scale dw dh W H)
             (kept_candidates t_conf t_iou cands), False)"
      using emit_detections_in_range[OF r assms] by (simp add: kept_candidates_def)
    show ?thesis
    proof (cases "cands = []")
      case True
      with Inr cv cvb show ?thesis
        by (simp add: decode_suppress_remap_def kept_candidates_def NMSBoxes_Nil
            List.map_filter_simps)
    next
      case False
      show ?thesis
      proof (cases "?K = []")
        case True
        with Inr cv cvb False show ?thesis
          by (simp add: decode_suppress_remap_def kept_candidates_def List.map_filter_simps)
      next
        case K: False
        with Inr cv cvb False e show ?thesis
          by (simp add: decode_suppress_remap_def Let_def)
      qed
    qed
  qed
qed

lemma subseq_map_filter: "subseq xs ys \<Longrightarrow> subseq (List.map_filter f xs) (List.map_filter f ys)"
  unfolding List.map_filter_def by (intro subseq_map subseq_filter)

lemma surviving_detections_subseq:
  assumes le: "t \<le> t'" and sc: "scale \<noteq> 0"
    and ok: "decode_suppress_remap t t_iou cn scale dw dh W H props = Inr r"
  shows "subseq (surviving_detections t' t_iou cn scale dw dh W H props)
                (surviving_detections t t_iou cn scale dw dh W H props)"
proof -
  let ?P' = "\<lambda>c. float_less (Finite t') (confidence c)"
  from ok obtain cands cv_b where
    d: "decode_proposals t (length cn) props = Inr cands" and cv: "cv_boxes cands = Inr cv_b"
    by (auto simp: decode_suppress_remap_eq[OF sc] split: sum.splits)
  from cv have fin: "\<forall>c\<in>set cands. \<exists>fb. finite_box (box c) = Some fb"
    using cv_boxes_Inr by blast
  have d': "decode_proposals t' (length cn) props = Inr (filter ?P' cands)"
    using d by (simp add: decode_proposals_mono[OF le])
  have cv': "cv_boxes (filter ?P' cands) = Inr (map rect_of (filter ?P' cands))"
    using fin by (intro cv_boxes_finite) auto
  have low: "surviving_detections t t_iou cn scale dw dh W H props =
             map snd (List.map_filter (emit_candidate cn scale dw dh W H)
                        (kept_candidates t t_iou cands))"
    using d cv by (simp add: surviving_detections_def decode_suppress_remap_eq[OF sc])
  have high: "surviving_detections t' t_iou cn scale dw dh W H props =
              map snd (List.map_filter (emit_candidate cn scale dw dh W H)
                         (filter ?P' (kept_candidates t t_iou cands)))"
    using d' cv'
    by (simp add: surviving_detections_def decode_suppress_remap_eq[OF sc]
        kept_candidates_mono[OF le])
  have "subseq (filter ?P' (kept_candidates t t_iou cands)) (kept_candidates t t_iou cands)"
    by simp
  then show ?thesis
    unfolding low high by (intro subseq_map subseq_map_filter)
qed

lemma surviving_detections_raised:
  "decode_suppress_remap t t_iou cn scale dw dh W H props = Inl e \<Longrightarrow>
   surviving_detections t t_iou cn scale dw dh W H props = []"
  by (simp add: surviving_detections_def)

lemma decode_proposals_boxes:
  "n \<noteq> 0 \<Longrightarrow>
   \<exists>cs. decode_proposals t n props = Inr cs \<and>
        (\<forall>c\<in>set cs. \<exists>row\<in>set props. 4 \<le> length row \<and>
           box c = (row ! 0, row ! 1, row ! 2, row ! 3))"
proof (induction props)
  case Nil
  then show ?case by simp
next
  case (Cons row props)
  then obtain cs where cs: "decode_proposals t n props = Inr cs"
    "\<forall>c\<in>set cs. \<exists>row\<in>set props. 4 \<le> length row \<and> box c = (row ! 0, row ! 1, row ! 2, row ! 3)"
    by blast
  with Cons.prems show ?case by (auto simp: Let_def)
qed

lemma finite_rows_complete:
  assumes "cn \<noteq> []" and "scale \<noteq> 0"
    and "\<forall>row\<in>set props. \<forall>x\<in>set (take 4 row). is_finite x"
  shows "\<exists>r. decode_suppress_remap t t_iou cn scale dw dh W H props = Inr r"
proof -
  from assms(1) obtain cs where cs: "decode_proposals t (length cn) props = Inr cs"
    "\<forall>c\<in>set cs. \<exists>row\<in>set props. 4 \<le> length row \<and> box c = (row ! 0, row ! 1, row ! 2, row ! 3)"
    using decode_proposals_boxes[of "length cn" t props] by auto
  have "\<forall>c\<in>set cs. \<exists>fb. finite_box (box c) = Some fb"
  proof
    fix c assume "c \<in> set cs"
    with cs(2) obtain row where row: "row \<in> set props" "4 \<le> length row"
      "box c = (row ! 0, row ! 1, row ! 2, row ! 3)" by blast
    have "\<forall>k<4. is_finite (row ! k)"
    proof (intro allI impI)
      fix k :: nat assume "k < 4"
      with row(2) have "row ! k \<in> set (take 4 row)"
        by (metis in_set_conv_nth length_take min.absorb2 nth_take)
      with assms(3) row(1) show "is_finite (row ! k)" by blast
    qed
    then have "is_finite (row ! 0) \<and> is_finite (row ! 1) \<and> is_finite (row ! 2) \<and>
               is_finite (row ! 3)" by simp
    then have "finite_box (box c) \<noteq> None" unfolding row(3) by (simp add: finite_box_None)
    then show "\<exists>fb. finite_box (box c) = Some fb" by auto
  qed
  then have "cv_boxes cs = Inr (map rect_of cs)" by (rule cv_boxes_finite)
  with cs(1) show ?thesis by (simp add: decode_suppress_remap_eq[OF assms(2)]) blast
qed

lemma perform_detections:
  assumes "preprocess_frame_for_onnx (model_input_shape st) shape = Some (scale, dw, dh)"
    and "onnx_session st"
  shows "snd (perform_inference_and_postprocess st shape (Some props) W H) =
         surviving_detections CONF_THRESHOLD NMS_THRESHOLD (class_names st) scale dw dh W H props"
proof -
  from assms(1) have sc: "scale \<noteq> 0"
    by (auto simp: preprocess_frame_for_onnx_def Let_def py_int_def
        split: option.splits prod.splits if_splits)
  with assms show ?thesis
    by (auto simp: perform_inference_and_postprocess_def surviving_detections_def
        decode_suppress_remap_eq[OF sc] List.map_filter_simps kept_candidates_def
        split: sum.splits)
qed

text \<open>
  Claim C7 as stated fails. The first row has a \<open>nan\<close> coordinate and the best score
  0.5. At the configured threshold 0.37 it becomes a candidate, its conversion raises
  and the frame reports no detection; at the higher threshold 0.6 it is no candidate
  and the frame reports the cat of the second row.
\<close>

theorem confidence_monotonicity_counterexample:
  "CONF_THRESHOLD \<le> 3 / 5 \<and>
   perform_inference_and_postprocess idle_state (480, 640) (Some nan_proposals) 640 480 =
     ([''Infer Error.''], []) \<and>
   surviving_detections CONF_THRESHOLD NMS_THRESHOLD [''cat'', ''dog''] 1 0 80 640 480
     nan_proposals = [] \<and>
   surviving_detections (3 / 5) NMS_THRESHOLD [''cat'', ''dog''] 1 0 80 640 480
     nan_proposals =
     [\<lparr>det_class_name = ''cat'', det_score = Finite (9 / 10), det_direction = ''front'',
       det_bbox = (280, 100, 320, 140)\<rparr>] \<and>
   \<not> length (surviving_detections (3 / 5) NMS_THRESHOLD [''cat'', ''dog''] 1 0 80 640 480
              nan_proposals) \<le>
     length (surviving_detections CONF_THRESHOLD NMS_THRESHOLD [''cat'', ''dog''] 1 0 80 640
              480 nan_proposals)"
  by code_simp

text \<open>
  Claim C7, amended. For fixed raw proposals on which the run at the lower threshold
  completes without an exception, raising the detection confidence threshold never
  increases the number of surviving detections: the survivors at the higher threshold
  are a subsequence of the survivors at the lower one. A run that raises reports no
  detection. A run completes whenever there is a class name and the four box numbers
  of every row are finite. The detections the server reports for a frame are the
  survivors at its configured thresholds.
\<close>

theorem confidence_monotonicity:
  "(t \<le> t' \<and> scale \<noteq> 0 \<and>
    decode_suppress_remap t t_iou cn scale dw dh W H props = Inr r \<longrightarrow>
      length (surviving_detections t' t_iou cn scale dw dh W H props) \<le>
      length (surviving_detections t t_iou cn scale dw dh W H props) \<and>
      subseq (surviving_detections t' t_iou cn scale dw dh W H props)
             (surviving_detections t t_iou cn scale dw dh W H props)) \<and>
   (decode_suppress_remap t t_iou cn scale dw dh W H props = Inl e \<longrightarrow>
      surviving_detections t t_iou cn scale dw dh W H props = []) \<and>
   (cn \<noteq> [] \<and> scale \<noteq> 0 \<and> (\<forall>row\<in>set props. \<forall>x\<in>set (take 4 row). is_finite x) \<longrightarrow>
      (\<exists>r. decode_suppress_remap t t_iou cn scale dw dh W H props = Inr r)) \<and>
   (preprocess_frame_for_onnx (model_input_shape st) shape = Some (scale, dw, dh) \<and>
    onnx_session st \<longrightarrow>
      snd (perform_inference_and_postprocess st shape (Some props) W H) =
      surviving_detections CONF_THRESHOLD NMS_THRESHOLD (class_names st) scale dw dh W H props)"
proof (intro conjI impI)
  assume h: "t \<le> t' \<and> scale \<noteq> 0 \<and>
    decode_suppress_remap t t_iou cn scale dw dh W H props = Inr r"
  then show s: "subseq (surviving_detections t' t_iou cn scale dw dh W H props)
             (surviving_detections t t_iou cn scale dw dh W H props)"
    using surviving_detections_subseq by blast
  then show "length (surviving_detections t' t_iou cn scale dw dh W H props) \<le>
      length (surviving_detections t t_iou cn scale dw dh W H props)"
    by (rule list_emb_length)
next
  assume "decode_suppress_remap t t_iou cn scale dw dh W H props = Inl e"
  then show "surviving_detections t t_iou cn scale dw dh W H props = []"
    by (rule surviving_detections_raised)
next
  assume "cn \<noteq> [] \<and> scale \<noteq> 0 \<and> (\<forall>row\<in>set props. \<forall>x\<in>set (take 4 row). is_finite x)"
  then show "\<exists>r. decode_suppress_remap t t_iou cn scale dw dh W H props = Inr r"
    using finite_rows_complete by blast
next
  assume "preprocess_frame_for_onnx (model_input_shape st) shape = Some (scale, dw, dh) \<and>
    onnx_session st"
  then show "snd (perform_inference_and_postprocess st shape (Some props) W H) =
      surviving_detections CONF_THRESHOLD NMS_THRESHOLD (class_names st) scale dw dh W H props"
    using perform_detections by blast
qed

theorem confidence_monotonicity_witness:
  "CONF_THRESHOLD \<le> 17 / 20 \<and> (1::rat) \<noteq> 0 \<and>
   (\<exists>r. decode_suppress_remap CONF_THRESHOLD NMS_THRESHOLD [''cat'', ''dog''] 1 0 80 640 480
          three_proposals = Inr r) \<and>
   length (surviving_detections (17 / 20) NMS_THRESHOLD [''cat'', ''dog''] 1 0 80 640 480
             three_proposals) \<le>
   length (surviving_detections CONF_THRESHOLD NMS_THRESHOLD [''cat'', ''dog''] 1 0 80 640 480
             three_proposals) \<and>
   length (surviving_detections (17 / 20) NMS_THRESHOLD [''cat'', ''dog''] 1 0 80 640 480
             three_proposals) = 1 \<and>
   length (surviving_detections CONF_THRESHOLD NMS_THRESHOLD [''cat'', ''dog''] 1 0 80 640 480
             three_proposals) = 2 \<and>
   decode_suppress_remap CONF_THRESHOLD NMS_THRESHOLD [''cat'', ''dog''] 1 0 80 640 480
     nan_proposals = Inl ValueError \<and>
   surviving_detections CONF_THRESHOLD NMS_THRESHOLD [''cat'', ''dog''] 1 0 80 640 480
     nan_proposals = [] \<and>
   preprocess_frame_for_onnx (model_input_shape idle_state) (480, 640) = Some (1, 0, 80) \<and>
   onnx_session idle_state \<and>
   snd (perform_inference_and_postprocess idle_state (480, 640) (Some three_proposals) 640 480) =
     surviving_detections CONF_THRESHOLD NMS_THRESHOLD (class_names idle_state) 1 0 80 640 480
       three_proposals"
proof -
  note t = confidence_monotonicity[where t = CONF_THRESHOLD and t' = "17 / 20"
      and t_iou = NMS_THRESHOLD and cn = "[''cat'', ''dog'']" and scale = 1 and dw = 0
      and dh = 80 and W = 640 and H = 480 and st = idle_state and shape = "(480, 640)"]
  have a: "CONF_THRESHOLD \<le> 17 / 20" by (simp add: CONF_THRESHOLD_def)
  have fin: "[''cat'', ''dog''] \<noteq> [] \<and> (1::rat) \<noteq> 0 \<and>
             (\<forall>row\<in>set three_proposals. \<forall>x\<in>set (take 4 row). is_finite x)"
    by (simp add: three_proposals_def)
  then obtain r where r: "decode_suppress_remap CONF_THRESHOLD NMS_THRESHOLD [''cat'', ''dog'']
      1 0 80 640 480 three_proposals = Inr r"
    using t[where props = three_proposals] by blast
  have le: "length (surviving_detections (17 / 20) NMS_THRESHOLD [''cat'', ''dog''] 1 0 80 640
               480 three_proposals) \<le>
            length (surviving_detections CONF_THRESHOLD NMS_THRESHOLD [''cat'', ''dog''] 1 0 80
               640 480 three_proposals)"
    using a r t[where props = three_proposals and r = r] by simp
  have b: "length (surviving_detections (17 / 20) NMS_THRESHOLD [''cat'', ''dog''] 1 0 80 640 480
             three_proposals) = 1" by code_simp
  have c: "length (surviving_detections CONF_THRESHOLD NMS_THRESHOLD [''cat'', ''dog''] 1 0 80
             640 480 three_proposals) = 2" by code_simp
  have n: "decode_suppress_remap CONF_THRESHOLD NMS_THRESHOLD [''cat'', ''dog''] 1 0 80 640 480
     nan_proposals = Inl ValueError" by code_simp
  then have n': "surviving_detections CONF_THRESHOLD NMS_THRESHOLD [''cat'', ''dog''] 1 0 80 640
     480 nan_proposals = []"
    using t[where props = nan_proposals and e = ValueError] by blast
  have d: "preprocess_frame_for_onnx (model_input_shape idle_state) (480, 640) = Some (1, 0, 80)"
    by code_simp
  have e: "onnx_session idle_state" by (simp add: idle_state_def)
  have p: "snd (perform_inference_and_postprocess idle_state (480, 640) (Some three_proposals)
             640 480) =
     surviving_detections CONF_THRESHOLD NMS_THRESHOLD (class_names idle_state) 1 0 80 640 480
       three_proposals"
    using d e t[where props = three_proposals] by blast
  have z: "(1::rat) \<noteq> 0" by simp
  from a z r le b c n n' d e p show ?thesis by blast
qed

section \<open>The emitted boxes\<close>

lemma remap_box_eq:
  "remap_box scale dw dh W H b =
     (case clamped_corners scale dw dh W H b of
        (x1c, y1c, x2c, y2c) \<Rightarrow>
          if x1c < x2c \<and> y1c < y2c then Some (x1c, y1c, x2c, y2c) else None)"
  by (cases b) (simp add: remap_box_def clamped_corners_def Let_def)

lemma remap_box_in_image: "remap_box scale dw dh W H b = Some bb \<Longrightarrow> box_in_image W H bb"
  by (cases b)
    (auto simp: remap_box_def box_in_image_def Let_def split: if_splits)

lemma float_div_Finite_iff:
  "float_div a r = Finite q \<longleftrightarrow> r \<noteq> 0 \<and> (\<exists>x. a = Finite x \<and> q = x / r)"
  by (cases a) auto

lemma remap_float_box_first:
  assumes "remap_float_box scale dw dh W H (cx, cy, w, h) = Inr r"
  shows "\<exists>q. float_minus (float_div (float_minus cx (Finite (of_int dw))) scale)
                (float_div (float_div w scale) 2) = Finite q"
    and "\<exists>q. float_minus (float_div (float_minus cy (Finite (of_int dh))) scale)
                (float_div (float_div h scale) 2) = Finite q"
  using assms
  by (auto simp: remap_float_box_def Let_def py_int_float_Inr split: sum.splits)

lemma remap_float_box_Inr:
  assumes "remap_float_box scale dw dh W H b = Inr r"
  shows "scale \<noteq> 0 \<and> (\<exists>fb. finite_box b = Some fb \<and> r = remap_box scale dw dh W H fb)"
proof (cases b)
  case (fields cx cy w h)
  note f = remap_float_box_first[OF assms[unfolded fields]]
  from f(1) obtain q where
    "float_minus (float_div (float_minus cx (Finite (of_int dw))) scale)
       (float_div (float_div w scale) 2) = Finite q" ..
  moreover from f(2) obtain q' where
    "float_minus (float_div (float_minus cy (Finite (of_int dh))) scale)
       (float_div (float_div h scale) 2) = Finite q'" ..
  ultimately
  have sc: "scale \<noteq> 0" and "\<exists>fb. finite_box b = Some fb"
    unfolding fields
    by (auto simp: float_minus_Finite float_div_Finite_iff finite_box_Some)
  then obtain fb where fb: "finite_box b = Some fb" by blast
  with sc assms have "r = remap_box scale dw dh W H fb"
    by (simp add: remap_float_box_finite)
  with sc fb show ?thesis by simp
qed

lemma remap_float_box_zero: "\<exists>e. remap_float_box 0 dw dh W H b = Inl e"
  using remap_float_box_Inr[of 0 dw dh W H b]
  by (cases "remap_float_box 0 dw dh W H b") auto

lemma emit_one_Some:
  assumes "emit_one cn scale dw dh W H cands i = Inr (Some (s, d))"
  shows "\<exists>fb. finite_box (box (cands ! i)) = Some fb \<and>
              remap_box scale dw dh W H fb = Some (det_bbox d)"
proof -
  from assms obtain bb where
    "remap_float_box scale dw dh W H (box (cands ! i)) = Inr (Some bb)" and "det_bbox d = bb"
    by (auto simp: emit_one_def Let_def split: if_splits sum.splits option.splits)
  then show ?thesis using remap_float_box_Inr by fastforce
qed

lemma emit_one_in_image:
  "emit_one cn scale dw dh W H cands i = Inr (Some (s, d)) \<Longrightarrow> box_in_image W H (det_bbox d)"
  using emit_one_Some remap_box_in_image by blast

lemma emit_detections_in_image:
  "(s, d) \<in> set (fst (emit_detections cn scale dw dh W H cands is)) \<Longrightarrow>
   box_in_image W H (det_bbox d)"
proof (induction "is")
  case Nil
  then show ?case by simp
next
  case (Cons i "is")
  then show ?case
    by (auto split: sum.splits prod.splits option.splits dest: emit_one_in_image)
qed

lemma decode_suppress_remap_in_image:
  assumes "decode_suppress_remap t_conf t_iou cn scale dw dh W H props = Inr (indices, ds, raised)"
    and m: "(s, d) \<in> set ds"
  shows "box_in_image W H (det_bbox d)"
proof -
  from assms(1) have "ds = [] \<or> (\<exists>cands is. ds = fst (emit_detections cn scale dw dh W H cands is))"
    by (auto simp: decode_suppress_remap_def Let_def split: sum.splits if_splits)
      (metis fst_conv)
  with m show ?thesis by (auto dest: emit_detections_in_image)
qed

text \<open>
  Claim C9. Every detection the pipeline emits has \<open>x1 < x2\<close> and \<open>y1 < y2\<close> with all
  four coordinates inside \<open>[0, width - 1] \<times> [0, height - 1]\<close>. A remapped box is dropped
  exactly when its clamped corners collapse (\<open>x1 \<ge> x2\<close> or \<open>y1 \<ge> y2\<close>), and an emitted
  detection carries the clamped corners of its candidate. The remap of the code returns
  a result exactly for a box of four finite numbers and a non-zero scale, and this
  result is the clamped corners or nothing.
\<close>

theorem surviving_boxes_in_bounds:
  "(\<forall>d\<in>set (snd (perform_inference_and_postprocess st shape det W H)).
      box_in_image W H (det_bbox d)) \<and>
   (\<forall>d\<in>set (surviving_detections t_conf t_iou cn scale dw dh W H props).
      box_in_image W H (det_bbox d)) \<and>
   (remap_box scale dw dh W H b = None \<longleftrightarrow>
      (case clamped_corners scale dw dh W H b of
         (x1c, y1c, x2c, y2c) \<Rightarrow> x1c \<ge> x2c \<or> y1c \<ge> y2c)) \<and>
   (scale \<noteq> 0 \<and> finite_box fl = Some b \<longrightarrow>
      remap_float_box scale dw dh W H fl = Inr (remap_box scale dw dh W H b)) \<and>
   (remap_float_box scale dw dh W H fl = Inr r \<longrightarrow>
      scale \<noteq> 0 \<and> (\<exists>fb. finite_box fl = Some fb \<and> r = remap_box scale dw dh W H fb)) \<and>
   (finite_box (box c) = Some b \<and> remap_box scale dw dh W H b = None \<longrightarrow>
      emit_candidate cn scale dw dh W H c = None) \<and>
   (emit_candidate cn scale dw dh W H c = Some (s, d) \<longrightarrow>
      (\<exists>fb. finite_box (box c) = Some fb \<and>
         remap_box scale dw dh W H fb = Some (det_bbox d) \<and>
         det_bbox d = clamped_corners scale dw dh W H fb))"
proof (intro conjI ballI impI)
  fix d assume "d \<in> set (snd (perform_inference_and_postprocess st shape det W H))"
  then show "box_in_image W H (det_bbox d)"
    unfolding perform_inference_and_postprocess_def
    by (auto split: option.splits prod.splits sum.splits if_splits
        dest: decode_suppress_remap_in_image decode_suppress_remap_in_image[OF sym])
next
  fix d assume "d \<in> set (surviving_detections t_conf t_iou cn scale dw dh W H props)"
  then show "box_in_image W H (det_bbox d)"
    unfolding surviving_detections_def
    by (auto split: sum.splits
        dest: decode_suppress_remap_in_image decode_suppress_remap_in_image[OF sym])
next
  show "remap_box scale dw dh W H b = None \<longleftrightarrow>
      (case clamped_corners scale dw dh W H b of
         (x1c, y1c, x2c, y2c) \<Rightarrow> x1c \<ge> x2c \<or> y1c \<ge> y2c)"
    by (auto simp: remap_box_eq split: prod.splits)
next
  assume "scale \<noteq> 0 \<and> finite_box fl = Some b"
  then show "remap_float_box scale dw dh W H fl = Inr (remap_box scale dw dh W H b)"
    by (simp add: remap_float_box_finite)
next
  assume "remap_float_box scale dw dh W H fl = Inr r"
  then show "scale \<noteq> 0"
    and "\<exists>fb. finite_box fl = Some fb \<and> r = remap_box scale dw dh W H fb"
    using remap_float_box_Inr by blast+
next
  assume h: "finite_box (box c) = Some b \<and> remap_box scale dw dh W H b = None"
  show "emit_candidate cn scale dw dh W H c = None"
  proof (cases "scale = 0")
    case True
    obtain e where "remap_float_box 0 dw dh W H (box c) = Inl e"
      using remap_float_box_zero by blast
    with True show ?thesis by (simp add: emit_candidate_def emit_one_def Let_def)
  next
    case False
    with h have "remap_float_box scale dw dh W H (box c) = Inr None"
      by (simp add: remap_float_box_finite)
    then show ?thesis by (simp add: emit_candidate_def emit_one_def Let_def)
  qed
next
  assume h: "emit_candidate cn scale dw dh W H c = Some (s, d)"
  then have "emit_one cn scale dw dh W H [c] 0 = Inr (Some (s, d))"
    by (auto simp: emit_candidate_def split: sum.splits)
  then obtain fb where fb: "finite_box (box c) = Some fb"
    "remap_box scale dw dh W H fb = Some (det_bbox d)"
    using emit_one_Some[of cn scale dw dh W H "[c]" 0 s d] by auto
  from fb(2) have "det_bbox d = clamped_corners scale dw dh W H fb"
    by (auto simp: remap_box_eq split: prod.splits if_splits)
  with fb show "\<exists>fb. finite_box (box c) = Some fb \<and>
         remap_box scale dw dh W H fb = Some (det_bbox d) \<and>
         det_bbox d = clamped_corners scale dw dh W H fb" by blast
qed

theorem surviving_boxes_in_bounds_witness:
  "map det_bbox
     (snd (perform_inference_and_postprocess idle_state (480, 640) (Some three_proposals)
             640 480)) = [(280, 100, 320, 140), (75, 215, 125, 265)] \<and>
   box_in_image 640 480 (280, 100, 320, 140) \<and> box_in_image 640 480 (75, 215, 125, 265) \<and>
   map det_bbox
     (surviving_detections (3 / 5) NMS_THRESHOLD [''cat'', ''dog''] 1 0 80 640 480
        nan_proposals) = [(280, 100, 320, 140)] \<and>
   clamped_corners 1 0 80 640 480 (700, 200, 40, 40) = (680, 100, 639, 140) \<and>
   remap_box 1 0 80 640 480 (700, 200, 40, 40) = None \<and>
   (1::rat) \<noteq> 0 \<and>
   finite_box (Finite 700, Finite 200, Finite 40, Finite 40) = Some (700, 200, 40, 40) \<and>
   remap_float_box 1 0 80 640 480 (Finite 700, Finite 200, Finite 40, Finite 40) = Inr None \<and>
   emit_candidate [''cat'', ''dog''] 1 0 80 640 480
     \<lparr>box = (Finite 700, Finite 200, Finite 40, Finite 40), confidence = Finite (9 / 10),
      class_id = 0\<rparr> = None \<and>
   emit_candidate [''cat'', ''dog''] 1 0 80 640 480
     \<lparr>box = (Finite 300, Finite 200, Finite 40, Finite 40), confidence = Finite (9 / 10),
      class_id = 0\<rparr> =
     Some (''cat (front) [0.90]'',
           \<lparr>det_class_name = ''cat'', det_score = Finite (9 / 10), det_direction = ''front'',
            det_bbox = (280, 100, 320, 140)\<rparr>) \<and>
   remap_box 1 0 80 640 480 (300, 200, 40, 40) = Some (280, 100, 320, 140)"
proof -
  let ?ds = "snd (perform_inference_and_postprocess idle_state (480, 640) (Some three_proposals)
             640 480)"
  let ?sv = "surviving_detections (3 / 5) NMS_THRESHOLD [''cat'', ''dog''] 1 0 80 640 480
        nan_proposals"
  let ?far = "\<lparr>box = (Finite 700, Finite 200, Finite 40, Finite 40),
      confidence = Finite (9 / 10), class_id = 0\<rparr>"
  let ?cat = "\<lparr>box = (Finite 300, Finite 200, Finite 40, Finite 40),
      confidence = Finite (9 / 10), class_id = 0\<rparr>"
  let ?d = "\<lparr>det_class_name = ''cat'', det_score = Finite (9 / 10), det_direction = ''front'',
            det_bbox = (280, 100, 320, 140)\<rparr>"
  have run: "map det_bbox ?ds = [(280, 100, 320, 140), (75, 215, 125, 265)]"
    by code_simp
  have sv: "map det_bbox ?sv = [(280, 100, 320, 140)]"
    by code_simp
  have cc: "clamped_corners 1 0 80 640 480 (700, 200, 40, 40) = (680, 100, 639, 140)"
    by code_simp
  have z: "(1::rat) \<noteq> 0" by simp
  have fb: "finite_box (Finite 700, Finite 200, Finite 40, Finite 40) = Some (700, 200, 40, 40)"
    by simp
  have em: "emit_candidate [''cat'', ''dog''] 1 0 80 640 480 ?cat =
     Some (''cat (front) [0.90]'', ?d)"
    by code_simp
  note t = surviving_boxes_in_bounds[where st = idle_state and shape = "(480, 640)"
      and det = "Some three_proposals" and W = 640 and H = 480 and scale = 1 and dw = 0
      and dh = 80 and cn = "[''cat'', ''dog'']" and t_conf = "3 / 5" and t_iou = NMS_THRESHOLD
      and props = nan_proposals]
  note far = t[where b = "(700, 200, 40, 40)" and c = ?far
      and fl = "(Finite 700, Finite 200, Finite 40, Finite 40)"]
  note cat = t[where c = ?cat and s = "''cat (front) [0.90]''" and d = ?d]
  have "\<forall>d\<in>set ?ds. box_in_image 640 480 (det_bbox d)"
    by (rule far[THEN conjunct1])
  then have "\<forall>bb\<in>set (map det_bbox ?ds). box_in_image 640 480 bb" by simp
  then have b1: "box_in_image 640 480 (280, 100, 320, 140)"
    and b2: "box_in_image 640 480 (75, 215, 125, 265)" unfolding run by simp_all
  have "\<forall>d\<in>set ?sv. box_in_image 640 480 (det_bbox d)"
    by (rule far[THEN conjunct2, THEN conjunct1])
  have "remap_box 1 0 80 640 480 (700, 200, 40, 40) = None \<longleftrightarrow>
      (case clamped_corners 1 0 80 640 480 (700, 200, 40, 40) of
         (x1c, y1c, x2c, y2c) \<Rightarrow> x1c \<ge> x2c \<or> y1c \<ge> y2c)"
    by (rule far[THEN conjunct2, THEN conjunct2, THEN conjunct1])
  then have none: "remap_box 1 0 80 640 480 (700, 200, 40, 40) = None"
    unfolding cc by simp
  have fl: "remap_float_box 1 0 80 640 480
      (Finite 700, Finite 200, Finite 40, Finite 40) = Inr None"
    using far[THEN conjunct2, THEN conjunct2, THEN conjunct2, THEN conjunct1] z fb none
    by simp
  have e: "emit_candidate [''cat'', ''dog''] 1 0 80 640 480 ?far = None"
    using far[THEN conjunct2, THEN conjunct2, THEN conjunct2, THEN conjunct2, THEN conjunct2,
        THEN conjunct1] fb none
    by simp
  have "\<exists>fb. finite_box (box ?cat) = Some fb \<and>
      remap_box 1 0 80 640 480 fb = Some (det_bbox ?d) \<and>
      det_bbox ?d = clamped_corners 1 0 80 640 480 fb"
    using cat[THEN conjunct2, THEN conjunct2, THEN conjunct2, THEN conjunct2, THEN conjunct2,
        THEN conjunct2] em
    by blast
  then have rb: "remap_box 1 0 80 640 480 (300, 200, 40, 40) = Some (280, 100, 320, 140)"
    by simp
  from run b1 b2 sv cc none z fb fl e em rb show ?thesis by blast
qed

section \<open>Frames whose processing fails\<close>

lemma detection_string_not_marker: "a @ '' ('' @ b @ '') ['' @ c @ '']'' \<noteq> ''Infer Error.''"
proof
  assume "a @ '' ('' @ b @ '') ['' @ c @ '']'' = ''Infer Error.''"
  then have "last (a @ '' ('' @ b @ '') ['' @ c @ '']'') = last ''Infer Error.''"
    by (rule arg_cong)
  then show False by simp
qed

lemma emit_candidate_not_marker:
  "emit_candidate cn scale dw dh W H c = Some (s, d) \<Longrightarrow> s \<noteq> ''Infer Error.''"
  by (auto simp: emit_candidate_def emit_one_def Let_def detection_string_not_marker
      split: if_splits sum.splits option.splits)

lemma in_set_map_filter: "y \<in> set (List.map_filter g xs) \<longleftrightarrow> (\<exists>x\<in>set xs. g x = Some y)"
  by (induction xs) (auto simp: List.map_filter_simps split: option.splits)

lemma pipeline_strings_not_marker:
  assumes "scale \<noteq> 0"
    and "decode_suppress_remap t_conf t_iou cn scale dw dh W H props = Inr (indices, ds, raised)"
  shows "\<not> raised" and "''Infer Error.'' \<notin> set (map fst ds)"
proof -
  from assms(2) obtain cands where
    r: "\<not> raised" and
    ds: "ds = List.map_filter (emit_candidate cn scale dw dh W H) (kept_candidates t_conf t_iou cands)"
    by (auto simp: decode_suppress_remap_eq[OF assms(1)] split: sum.splits)
  from r show "\<not> raised" .
  show "''Infer Error.'' \<notin> set (map fst ds)"
    unfolding ds by (auto simp: in_set_map_filter dest: emit_candidate_not_marker)
qed

lemma perform_letterbox_failed:
  "letterbox_failed st shape \<Longrightarrow> perform_inference_and_postprocess st shape det W H = ([], [])"
  by (auto simp: letterbox_failed_def perform_inference_and_postprocess_def
      split: option.splits)

lemma perform_detector_marker:
  "\<not> letterbox_failed st shape \<Longrightarrow> onnx_session st \<Longrightarrow>
   perform_inference_and_postprocess st shape None W H = ([''Infer Error.''], [])"
  by (auto simp: letterbox_failed_def perform_inference_and_postprocess_def
      split: option.splits)

lemma perform_postprocess_marker:
  "preprocess_frame_for_onnx (model_input_shape st) shape = Some (scale, dw, dh) \<Longrightarrow>
   scale \<noteq> 0 \<Longrightarrow> onnx_session st \<Longrightarrow>
   decode_suppress_remap CONF_THRESHOLD NMS_THRESHOLD (class_names st) scale dw dh W H props =
     Inl e \<Longrightarrow>
   perform_inference_and_postprocess st shape (Some props) W H = ([''Infer Error.''], [])"
  by (simp add: perform_inference_and_postprocess_def)

lemma perform_marker_alone:
  assumes "''Infer Error.'' \<in> set (fst (perform_inference_and_postprocess st shape det W H))"
  shows "perform_inference_and_postprocess st shape det W H = ([''Infer Error.''], [])"
proof (cases "preprocess_frame_for_onnx (model_input_shape st) shape")
  case None
  with assms show ?thesis by (simp add: perform_inference_and_postprocess_def)
next
  case (Some p)
  obtain scale dw dh where p: "p = (scale, dw, dh)" by (cases p)
  note pre = Some[unfolded p]
  show ?thesis
  proof (cases "scale = 0 \<or> \<not> onnx_session st")
    case True
    with assms pre show ?thesis
      by (auto simp: perform_inference_and_postprocess_def split: if_splits)
  next
    case False
    then have sc: "scale \<noteq> 0" and on: "onnx_session st" by simp_all
    show ?thesis
    proof (cases det)
      case None
      with pre sc on show ?thesis by (simp add: perform_inference_and_postprocess_def)
    next
      case det: (Some props)
      show ?thesis
      proof (cases "decode_suppress_remap CONF_THRESHOLD NMS_THRESHOLD (class_names st)
                      scale dw dh W H props")
        case (Inl e)
        with pre sc on det show ?thesis by (simp add: perform_inference_and_postprocess_def)
      next
        case (Inr r)
        obtain indices ds raised where r: "r = (indices, ds, raised)" by (cases r)
        note run = Inr[unfolded r]
        from pipeline_strings_not_marker[OF sc run]
        have "\<not> raised" and "''Infer Error.'' \<notin> set (map fst ds)" by simp_all
        with assms pre sc on det run show ?thesis
          by (auto simp: perform_inference_and_postprocess_def split: if_splits)
      qed
    qed
  qed
qed

lemma failed_frame_route:
  assumes "failed_frame st req"
  shows "\<exists>h w. frame_shape req = Some (h, w) \<and> accepted st req \<and>
           snd (perform_inference_and_postprocess st (h, w) (detector_output req) w h) = [] \<and>
           generate_speech_summary_from_detections_strings
             (fst (perform_inference_and_postprocess st (h, w) (detector_output req) w h)) =
             Inr (None, {})"
proof -
  from assms obtain h w where fs: "frame_shape req = Some (h, w)" and acc: "accepted st req"
    and f: "letterbox_failed st (h, w) \<or>
            ''Infer Error.'' \<in> set (fst (perform_inference_and_postprocess st (h, w)
                                             (detector_output req) w h))"
    by (auto simp: failed_frame_def split: option.splits)
  from f have "snd (perform_inference_and_postprocess st (h, w) (detector_output req) w h) = []"
    using perform_letterbox_failed[of st "(h, w)" "detector_output req" w h]
      perform_marker_alone[of st "(h, w)" "detector_output req" w h]
    by auto
  with fs acc show ?thesis using summary_no_detections by blast
qed

lemma failed_frame_step:
  assumes "failed_frame st req"
  shows "fst (process_image_route st req now) = fst (announcement_step st (None, {}) now)"
    and "\<not> (lower (draw_boxes req) = ''true'' \<and> imencode_ok req) \<Longrightarrow>
         speech_output (snd (process_image_route st req now)) =
           snd (announcement_step st (None, {}) now)"
    and "lower (draw_boxes req) = ''true'' \<and> imencode_ok req \<Longrightarrow>
         snd (process_image_route st req now) = ImageJpeg"
proof -
  from failed_frame_route[OF assms] obtain h w where
    fs: "frame_shape req = Some (h, w)" and acc: "accepted st req" and
    g: "generate_speech_summary_from_detections_strings
          (fst (perform_inference_and_postprocess st (h, w) (detector_output req) w h)) =
          Inr (None, {})"
    by blast
  show "fst (process_image_route st req now) = fst (announcement_step st (None, {}) now)"
    using route_accepted(1)[OF acc fs g] .
  show "speech_output (snd (process_image_route st req now)) =
           snd (announcement_step st (None, {}) now)"
    if "\<not> (lower (draw_boxes req) = ''true'' \<and> imencode_ok req)"
    using route_accepted(2)[OF acc fs g that] by simp
  show "snd (process_image_route st req now) = ImageJpeg"
    if "lower (draw_boxes req) = ''true'' \<and> imencode_ok req"
    using that acc fs g unfolding process_image_route_def accepted_def
    by (auto split: prod.splits)
qed

lemma route_summary_raised:
  assumes "accepted st req" and "frame_shape req = Some (h, w)"
    and "generate_speech_summary_from_detections_strings
           (fst (perform_inference_and_postprocess st (h, w) (detector_output req) w h)) = Inl e"
  shows "process_image_route st req now = (st, ServerError)"
  using assms unfolding process_image_route_def accepted_def
  by (auto split: prod.splits)

text \<open>
  Claim C1 as stated fails, for every kind of failure of an accepted frame. The last
  announcement was a cat in front at time 1000, and the frame arrives at time 1010. The
  detector raises; or the frame is one pixel wide and the letterbox fails; or a box has
  a \<open>nan\<close> coordinate and its conversion raises; or there is no class name and decoding
  raises. Each time the frame yields the candidate \<open>Scene clear.\<close> and rewrites all three
  fields of the announcement state.
\<close>

theorem error_frame_counterexample:
  "accepted example_state failing_request \<and>
   process_image_route example_state failing_request 1010 =
     (example_state\<lparr>last_generated_speech_text := ''Scene clear.'',
                    last_semantic_summary_set := {},
                    last_announcement_text_generation_time := 1010\<rparr>,
      Detections [''Infer Error.''] [] (Some ''Scene clear.'')) \<and>
   fst (process_image_route example_state failing_request 1010) \<noteq> example_state \<and>
   accepted example_state thin_request \<and>
   preprocess_frame_for_onnx (model_input_shape example_state) (641, 1) = None \<and>
   process_image_route example_state thin_request 1010 =
     (example_state\<lparr>last_generated_speech_text := ''Scene clear.'',
                    last_semantic_summary_set := {},
                    last_announcement_text_generation_time := 1010\<rparr>,
      Detections [] [] (Some ''Scene clear.'')) \<and>
   accepted example_state nan_request \<and>
   process_image_route example_state nan_request 1010 =
     (example_state\<lparr>last_generated_speech_text := ''Scene clear.'',
                    last_semantic_summary_set := {},
                    last_announcement_text_generation_time := 1010\<rparr>,
      Detections [''Infer Error.''] [] (Some ''Scene clear.'')) \<and>
   accepted nameless_state sound_request \<and>
   process_image_route nameless_state sound_request 1010 =
     (nameless_state\<lparr>last_generated_speech_text := ''Scene clear.'',
                     last_semantic_summary_set := {},
                     last_announcement_text_generation_time := 1010\<rparr>,
      Detections [''Infer Error.''] [] (Some ''Scene clear.''))"
  by (simp add: accepted_def example_state_def nameless_state_def failing_request_def
      thin_request_def nan_request_def sound_request_def) code_simp

text \<open>
  Claim C1, amended. A request rejected for its input or for the missing model leaves
  the state as it was and carries no candidate. Short proposal rows are skipped: the
  frame is processed as if they were absent. An accepted frame fails when the letterbox
  fails, and then it yields no detection string, or when the detector, the decoding or
  a conversion raises, and then it yields the one marker \<open>Infer Error.\<close>; the marker
  never comes with a detection. A failed frame has no summary and an empty semantic set
  and is handled like an empty frame. With scene-clear announcements off or an empty
  last semantic set it leaves the state as it was and carries no candidate. Otherwise
  its candidate is \<open>Scene clear.\<close>, which is committed, writing all three fields, when
  the cooldown has passed, and leaves the state as it was when it has not. A frame on
  which the summary builder raises ends the request with a server error: the state is
  as it was and the response carries no candidate.
\<close>

theorem error_frames:
  "(detection_active st \<and>
    (\<not> has_image req \<or> filename req = [] \<or> frame_shape req = None \<or> \<not> onnx_session st) \<longrightarrow>
      fst (process_image_route st req now) = st \<and>
      (\<exists>code msg. snd (process_image_route st req now) = Rejected code msg) \<and>
      speech_output (snd (process_image_route st req now)) = None) \<and>
   process_image_route st (req\<lparr>detector_output := Some rows\<rparr>) now =
   process_image_route st
     (req\<lparr>detector_output :=
            Some (filter (\<lambda>p. \<not> length p < 4 + length (class_names st)) rows)\<rparr>) now \<and>
   (letterbox_failed st shape \<longrightarrow>
      perform_inference_and_postprocess st shape det W H = ([], [])) \<and>
   (\<not> letterbox_failed st shape \<and> onnx_session st \<longrightarrow>
      perform_inference_and_postprocess st shape None W H = ([''Infer Error.''], [])) \<and>
   (preprocess_frame_for_onnx (model_input_shape st) shape = Some (scale, dw, dh) \<and>
    scale \<noteq> 0 \<and> onnx_session st \<and>
    decode_suppress_remap CONF_THRESHOLD NMS_THRESHOLD (class_names st) scale dw dh W H props =
      Inl e \<longrightarrow>
      perform_inference_and_postprocess st shape (Some props) W H = ([''Infer Error.''], [])) \<and>
   (''Infer Error.'' \<in> set (fst (perform_inference_and_postprocess st shape det W H)) \<longrightarrow>
      perform_inference_and_postprocess st shape det W H = ([''Infer Error.''], [])) \<and>
   (failed_frame st req \<longrightarrow>
      (\<exists>h w. frame_shape req = Some (h, w) \<and>
         snd (perform_inference_and_postprocess st (h, w) (detector_output req) w h) = [] \<and>
         generate_speech_summary_from_detections_strings
           (fst (perform_inference_and_postprocess st (h, w) (detector_output req) w h)) =
           Inr (None, {})) \<and>
      fst (process_image_route st req now) = fst (announcement_step st (None, {}) now) \<and>
      (if lower (draw_boxes req) = ''true'' \<and> imencode_ok req
       then snd (process_image_route st req now) = ImageJpeg
       else speech_output (snd (process_image_route st req now)) =
              snd (announcement_step st (None, {}) now))) \<and>
   announcement_step st (None, {}) now =
     (if announce_scene_clear st \<and> last_semantic_summary_set st \<noteq> {}
      then (if now - last_announcement_text_generation_time st > TTS_ANNOUNCEMENT_COOLDOWN
            then st\<lparr>last_generated_speech_text := ''Scene clear.'',
                    last_semantic_summary_set := {},
                    last_announcement_text_generation_time := now\<rparr>
            else st, Some ''Scene clear.'')
      else (st, None)) \<and>
   (failed_frame st req \<and> (\<not> announce_scene_clear st \<or> last_semantic_summary_set st = {}) \<longrightarrow>
      fst (process_image_route st req now) = st \<and>
      speech_output (snd (process_image_route st req now)) = None) \<and>
   (failed_frame st req \<and> announce_scene_clear st \<and> last_semantic_summary_set st \<noteq> {} \<and>
    \<not> (lower (draw_boxes req) = ''true'' \<and> imencode_ok req) \<longrightarrow>
      speech_output (snd (process_image_route st req now)) = Some ''Scene clear.'') \<and>
   (failed_frame st req \<and> announce_scene_clear st \<and> last_semantic_summary_set st \<noteq> {} \<and>
    now - last_announcement_text_generation_time st > TTS_ANNOUNCEMENT_COOLDOWN \<longrightarrow>
      fst (process_image_route st req now) =
        st\<lparr>last_generated_speech_text := ''Scene clear.'', last_semantic_summary_set := {},
           last_announcement_text_generation_time := now\<rparr>) \<and>
   (failed_frame st req \<and>
    \<not> now - last_announcement_text_generation_time st > TTS_ANNOUNCEMENT_COOLDOWN \<longrightarrow>
      fst (process_image_route st req now) = st) \<and>
   (accepted st req \<and> frame_shape req = Some (vh, vw) \<and>
    generate_speech_summary_from_detections_strings
      (fst (perform_inference_and_postprocess st (vh, vw) (detector_output req) vw vh)) =
      Inl e' \<longrightarrow>
      process_image_route st req now = (st, ServerError) \<and>
      speech_output (snd (process_image_route st req now)) = None)"
proof (intro conjI impI)
  assume h: "detection_active st \<and>
    (\<not> has_image req \<or> filename req = [] \<or> frame_shape req = None \<or> \<not> onnx_session st)"
  then show "fst (process_image_route st req now) = st"
    using route_rejected(1)[of st req now] by blast
  from h obtain code msg where r: "snd (process_image_route st req now) = Rejected code msg"
    using route_rejected(2)[of st req now] by blast
  then show "\<exists>code msg. snd (process_image_route st req now) = Rejected code msg" by blast
  from r show "speech_output (snd (process_image_route st req now)) = None" by simp
next
  show "process_image_route st (req\<lparr>detector_output := Some rows\<rparr>) now =
      process_image_route st
        (req\<lparr>detector_output :=
               Some (filter (\<lambda>p. \<not> length p < 4 + length (class_names st)) rows)\<rparr>) now"
    by (simp add: process_image_route_def perform_skips_short_rows
        split: option.splits prod.splits sum.splits)
next
  assume "letterbox_failed st shape"
  then show "perform_inference_and_postprocess st shape det W H = ([], [])"
    by (rule perform_letterbox_failed)
next
  assume "\<not> letterbox_failed st shape \<and> onnx_session st"
  then show "perform_inference_and_postprocess st shape None W H = ([''Infer Error.''], [])"
    by (simp add: perform_detector_marker)
next
  assume "preprocess_frame_for_onnx (model_input_shape st) shape = Some (scale, dw, dh) \<and>
    scale \<noteq> 0 \<and> onnx_session st \<and>
    decode_suppress_remap CONF_THRESHOLD NMS_THRESHOLD (class_names st) scale dw dh W H props =
      Inl e"
  then show "perform_inference_and_postprocess st shape (Some props) W H =
      ([''Infer Error.''], [])"
    using perform_postprocess_marker by blast
next
  assume "''Infer Error.'' \<in> set (fst (perform_inference_and_postprocess st shape det W H))"
  then show "perform_inference_and_postprocess st shape det W H = ([''Infer Error.''], [])"
    by (rule perform_marker_alone)
next
  assume f: "failed_frame st req"
  from failed_frame_route[OF f]
  show "\<exists>h w. frame_shape req = Some (h, w) \<and>
         snd (perform_inference_and_postprocess st (h, w) (detector_output req) w h) = [] \<and>
         generate_speech_summary_from_detections_strings
           (fst (perform_inference_and_postprocess st (h, w) (detector_output req) w h)) =
           Inr (None, {})" by blast
  show "fst (process_image_route st req now) = fst (announcement_step st (None, {}) now)"
    by (rule failed_frame_step(1)[OF f])
  show "if lower (draw_boxes req) = ''true'' \<and> imencode_ok req
       then snd (process_image_route st req now) = ImageJpeg
       else speech_output (snd (process_image_route st req now)) =
              snd (announcement_step st (None, {}) now)"
    using failed_frame_step(2,3)[OF f, of now] by (simp split: if_splits)
next
  show "announcement_step st (None, {}) now =
     (if announce_scene_clear st \<and> last_semantic_summary_set st \<noteq> {}
      then (if now - last_announcement_text_generation_time st > TTS_ANNOUNCEMENT_COOLDOWN
            then st\<lparr>last_generated_speech_text := ''Scene clear.'',
                    last_semantic_summary_set := {},
                    last_announcement_text_generation_time := now\<rparr>
            else st, Some ''Scene clear.'')
      else (st, None))"
    by (rule step_empty_frame)
next
  assume h: "failed_frame st req \<and>
    (\<not> announce_scene_clear st \<or> last_semantic_summary_set st = {})"
  then have s: "announcement_step st (None, {}) now = (st, None)"
    by (auto simp: step_empty_frame)
  from h s show "fst (process_image_route st req now) = st"
    using failed_frame_step(1)[of st req now] by simp
  show "speech_output (snd (process_image_route st req now)) = None"
  proof (cases "lower (draw_boxes req) = ''true'' \<and> imencode_ok req")
    case True
    with h show ?thesis using failed_frame_step(3)[of st req now] by simp
  next
    case False
    with h s show ?thesis using failed_frame_step(2)[of st req now] by simp
  qed
next
  assume h: "failed_frame st req \<and> announce_scene_clear st \<and>
    last_semantic_summary_set st \<noteq> {} \<and>
    \<not> (lower (draw_boxes req) = ''true'' \<and> imencode_ok req)"
  then have "speech_output (snd (process_image_route st req now)) =
             snd (announcement_step st (None, {}) now)"
    using failed_frame_step(2)[of st req now] by blast
  with h show "speech_output (snd (process_image_route st req now)) = Some ''Scene clear.''"
    by (simp add: step_empty_frame)
next
  assume h: "failed_frame st req \<and> announce_scene_clear st \<and>
    last_semantic_summary_set st \<noteq> {} \<and>
    now - last_announcement_text_generation_time st > TTS_ANNOUNCEMENT_COOLDOWN"
  then show "fst (process_image_route st req now) =
        st\<lparr>last_generated_speech_text := ''Scene clear.'', last_semantic_summary_set := {},
           last_announcement_text_generation_time := now\<rparr>"
    using failed_frame_step(1)[of st req now] by (simp add: step_empty_frame)
next
  assume h: "failed_frame st req \<and>
    \<not> now - last_announcement_text_generation_time st > TTS_ANNOUNCEMENT_COOLDOWN"
  then show "fst (process_image_route st req now) = st"
    using failed_frame_step(1)[of st req now] by (simp add: step_empty_frame)
next
  assume "accepted st req \<and> frame_shape req = Some (vh, vw) \<and>
    generate_speech_summary_from_detections_strings
      (fst (perform_inference_and_postprocess st (vh, vw) (detector_output req) vw vh)) =
      Inl e'"
  then show r: "process_image_route st req now = (st, ServerError)"
    using route_summary_raised by blast
  show "speech_output (snd (process_image_route st req now)) = None"
    unfolding r by simp
qed

theorem error_frames_witness:
  "detection_active example_state \<and> \<not> has_image (failing_request\<lparr>has_image := False\<rparr>) \<and>
   fst (process_image_route example_state (failing_request\<lparr>has_image := False\<rparr>) 1010) =
     example_state \<and>
   speech_output
     (snd (process_image_route example_state (failing_request\<lparr>has_image := False\<rparr>) 1010)) =
     None \<and>
   letterbox_failed example_state (641, 1) \<and>
   perform_inference_and_postprocess example_state (641, 1) (Some []) 1 641 = ([], []) \<and>
   \<not> letterbox_failed example_state (480, 640) \<and> onnx_session example_state \<and>
   perform_inference_and_postprocess example_state (480, 640) None 640 480 =
     ([''Infer Error.''], []) \<and>
   preprocess_frame_for_onnx (model_input_shape example_state) (480, 640) = Some (1, 0, 80) \<and>
   decode_suppress_remap CONF_THRESHOLD NMS_THRESHOLD (class_names example_state) 1 0 80 640 480
     nan_proposals = Inl ValueError \<and>
   perform_inference_and_postprocess example_state (480, 640) (Some nan_proposals) 640 480 =
     ([''Infer Error.''], []) \<and>
   failed_frame idle_state failing_request \<and> last_semantic_summary_set idle_state = {} \<and>
   fst (process_image_route idle_state failing_request 1010) = idle_state \<and>
   speech_output (snd (process_image_route idle_state failing_request 1010)) = None \<and>
   failed_frame example_state thin_request \<and> failed_frame example_state nan_request \<and>
   failed_frame example_state failing_request \<and> announce_scene_clear example_state \<and>
   last_semantic_summary_set example_state \<noteq> {} \<and>
   1010 - last_announcement_text_generation_time example_state > TTS_ANNOUNCEMENT_COOLDOWN \<and>
   speech_output (snd (process_image_route example_state nan_request 1010)) =
     Some ''Scene clear.'' \<and>
   fst (process_image_route example_state nan_request 1010) =
     example_state\<lparr>last_generated_speech_text := ''Scene clear.'',
                    last_semantic_summary_set := {},
                    last_announcement_text_generation_time := 1010\<rparr> \<and>
   fst (process_image_route example_state thin_request 1010) =
     example_state\<lparr>last_generated_speech_text := ''Scene clear.'',
                    last_semantic_summary_set := {},
                    last_announcement_text_generation_time := 1010\<rparr> \<and>
   \<not> 1003 - last_announcement_text_generation_time example_state > TTS_ANNOUNCEMENT_COOLDOWN \<and>
   fst (process_image_route example_state nan_request 1003) = example_state \<and>
   speech_output (snd (process_image_route example_state nan_request 1003)) =
     Some ''Scene clear.'' \<and>
   accepted y_state sound_request \<and>
   generate_speech_summary_from_detections_strings
     (fst (perform_inference_and_postprocess y_state (480, 640) (detector_output sound_request)
             640 480)) = Inl IndexError \<and>
   process_image_route y_state sound_request 1010 = (y_state, ServerError)"
proof -
  note rej = error_frames[where st = example_state
      and req = "failing_request\<lparr>has_image := False\<rparr>" and now = 1010]
  note thin = error_frames[where st = example_state and req = thin_request and now = 1010
      and shape = "(641, 1)" and det = "Some []" and W = 1 and H = 641]
  note nan = error_frames[where st = example_state and req = nan_request and now = 1010
      and shape = "(480, 640)" and det = "Some nan_proposals" and W = 640 and H = 480
      and scale = 1 and dw = 0 and dh = 80 and props = nan_proposals and e = ValueError]
  note early = error_frames[where st = example_state and req = nan_request and now = 1003]
  note idle = error_frames[where st = idle_state and req = failing_request and now = 1010]
  have a: "detection_active example_state \<and> \<not> has_image (failing_request\<lparr>has_image := False\<rparr>)"
    by (simp add: example_state_def failing_request_def)
  have r1: "fst (process_image_route example_state (failing_request\<lparr>has_image := False\<rparr>) 1010) =
            example_state"
    and r2: "speech_output (snd (process_image_route example_state
               (failing_request\<lparr>has_image := False\<rparr>) 1010)) = None"
    using a rej[THEN conjunct1] by blast+
  have lb: "letterbox_failed example_state (641, 1)"
    unfolding letterbox_failed_def example_state_def by code_simp
  have p1: "perform_inference_and_postprocess example_state (641, 1) (Some []) 1 641 = ([], [])"
    using lb thin[THEN conjunct2, THEN conjunct2, THEN conjunct1] by blast
  have nlb: "\<not> letterbox_failed example_state (480, 640)"
    unfolding letterbox_failed_def example_state_def by code_simp
  have on: "onnx_session example_state" by (simp add: example_state_def)
  have p2: "perform_inference_and_postprocess example_state (480, 640) None 640 480 =
            ([''Infer Error.''], [])"
    using nlb on nan[THEN conjunct2, THEN conjunct2, THEN conjunct2, THEN conjunct1] by blast
  have pre: "preprocess_frame_for_onnx (model_input_shape example_state) (480, 640) =
             Some (1, 0, 80)"
    unfolding example_state_def by code_simp
  have z: "(1::rat) \<noteq> 0" by simp
  have dec: "decode_suppress_remap CONF_THRESHOLD NMS_THRESHOLD (class_names example_state) 1 0
               80 640 480 nan_proposals = Inl ValueError"
    unfolding example_state_def by code_simp
  have p3: "perform_inference_and_postprocess example_state (480, 640) (Some nan_proposals) 640
              480 = ([''Infer Error.''], [])"
    using pre z on dec
      nan[THEN conjunct2, THEN conjunct2, THEN conjunct2, THEN conjunct2, THEN conjunct1]
    by blast
  have f0: "failed_frame idle_state failing_request"
    unfolding failed_frame_def accepted_def letterbox_failed_def idle_state_def
      failing_request_def by code_simp
  have e0: "last_semantic_summary_set idle_state = {}" by (simp add: idle_state_def)
  have i1: "fst (process_image_route idle_state failing_request 1010) = idle_state"
    and i2: "speech_output (snd (process_image_route idle_state failing_request 1010)) = None"
    using f0 e0
      idle[THEN conjunct2, THEN conjunct2, THEN conjunct2, THEN conjunct2, THEN conjunct2,
        THEN conjunct2, THEN conjunct2, THEN conjunct2, THEN conjunct1]
    by blast+
  have f1: "failed_frame example_state thin_request"
    unfolding failed_frame_def accepted_def letterbox_failed_def example_state_def
      thin_request_def by code_simp
  have f2: "failed_frame example_state nan_request"
    unfolding failed_frame_def accepted_def letterbox_failed_def example_state_def
      nan_request_def by code_simp
  have f3: "failed_frame example_state failing_request"
    unfolding failed_frame_def accepted_def letterbox_failed_def example_state_def
      failing_request_def by code_simp
  have c: "announce_scene_clear example_state \<and> last_semantic_summary_set example_state \<noteq> {} \<and>
           1010 - last_announcement_text_generation_time example_state >
             TTS_ANNOUNCEMENT_COOLDOWN \<and>
           \<not> 1003 - last_announcement_text_generation_time example_state >
               TTS_ANNOUNCEMENT_COOLDOWN"
    by (simp add: example_state_def TTS_ANNOUNCEMENT_COOLDOWN_def)
  have nd: "\<not> (lower (draw_boxes nan_request) = ''true'' \<and> imencode_ok nan_request)"
    by (simp add: nan_request_def lower_def)
  have s1: "speech_output (snd (process_image_route example_state nan_request 1010)) =
            Some ''Scene clear.''"
    using f2 c nd
      nan[THEN conjunct2, THEN conjunct2, THEN conjunct2, THEN conjunct2, THEN conjunct2,
        THEN conjunct2, THEN conjunct2, THEN conjunct2, THEN conjunct2, THEN conjunct1]
    by blast
  have s2: "fst (process_image_route example_state nan_request 1010) =
     example_state\<lparr>last_generated_speech_text := ''Scene clear.'',
                    last_semantic_summary_set := {},
                    last_announcement_text_generation_time := 1010\<rparr>"
    using f2 c
      nan[THEN conjunct2, THEN conjunct2, THEN conjunct2, THEN conjunct2, THEN conjunct2,
        THEN conjunct2, THEN conjunct2, THEN conjunct2, THEN conjunct2, THEN conjunct2,
        THEN conjunct1]
    by blast
  have s3: "fst (process_image_route example_state thin_request 1010) =
     example_state\<lparr>last_generated_speech_text := ''Scene clear.'',
                    last_semantic_summary_set := {},
                    last_announcement_text_generation_time := 1010\<rparr>"
    using f1 c
      thin[THEN conjunct2, THEN conjunct2, THEN conjunct2, THEN conjunct2, THEN conjunct2,
        THEN conjunct2, THEN conjunct2, THEN conjunct2, THEN conjunct2, THEN conjunct2,
        THEN conjunct1]
    by blast
  have s4: "fst (process_image_route example_state nan_request 1003) = example_state"
    using f2 c
      early[THEN conjunct2, THEN conjunct2, THEN conjunct2, THEN conjunct2, THEN conjunct2,
        THEN conjunct2, THEN conjunct2, THEN conjunct2, THEN conjunct2, THEN conjunct2,
        THEN conjunct2, THEN conjunct1]
    by blast
  have s5: "speech_output (snd (process_image_route example_state nan_request 1003)) =
            Some ''Scene clear.''"
    using f2 c nd
      early[THEN conjunct2, THEN conjunct2, THEN conjunct2, THEN conjunct2, THEN conjunct2,
        THEN conjunct2, THEN conjunct2, THEN conjunct2, THEN conjunct2, THEN conjunct1]
    by blast
  have ya: "accepted y_state sound_request \<and> frame_shape sound_request = Some (480, 640)"
    by (simp add: accepted_def y_state_def sound_request_def)
  have yg: "generate_speech_summary_from_detections_strings
     (fst (perform_inference_and_postprocess y_state (480, 640) (detector_output sound_request)
             640 480)) = Inl IndexError"
    unfolding y_state_def sound_request_def by code_simp
  have yr: "process_image_route y_state sound_request 1010 = (y_state, ServerError)"
    using ya yg
      error_frames[where st = y_state and req = sound_request and now = 1010 and vh = 480
        and vw = 640 and e' = IndexError,
        THEN conjunct2, THEN conjunct2, THEN conjunct2, THEN conjunct2, THEN conjunct2,
        THEN conjunct2, THEN conjunct2, THEN conjunct2, THEN conjunct2, THEN conjunct2,
        THEN conjunct2, THEN conjunct2]
    by blast
  from a r1 r2 lb p1 nlb on p2 pre dec p3 f0 e0 i1 i2 f1 f2 f3 c s1 s2 s3 s4 s5 ya yg yr
  show ?thesis by blast
qed

end
